theory Spec2Isabelle
  imports Complex_Main "HOL-Library.Char_ord" "HOL-Library.List_Lexorder" "HOL-Library.Multiset"
begin

section \<open>The European Scaleup Monitor dashboard\<close>

text \<open>
  A shallow embedding of \<^verbatim>\<open>streamlit_country_app_newlayout.py\<close>: the script's \<^verbatim>\<open>main\<close>
  function, the table operations it calls, and the values it hands to the plotting
  library. Values that the script receives back from a library (table lookups, the
  colour palette, the sorted list, the axis limits) are modelled; pure page decoration
  (\<^verbatim>\<open>st.markdown\<close> of static HTML, titles, fonts, grid style) is left out.
  Floating-point cells are modelled as real numbers plus the not-a-number value.
\<close>

subsection \<open>Python values and errors\<close>

datatype py_error = KeyError | IndexError | ValueError

datatype pyfloat = Num real | NaN

text \<open>\<^verbatim>\<open>v * c\<close> for a float cell \<^verbatim>\<open>v\<close> and a literal \<^verbatim>\<open>c\<close>: NaN stays NaN.\<close>

fun fmul :: "pyfloat \<Rightarrow> real \<Rightarrow> pyfloat" where
  "fmul (Num v) c = Num (v * c)"
| "fmul NaN c = NaN"

text \<open>\<^verbatim>\<open>a < b\<close> and \<^verbatim>\<open>a > b\<close> on floats: every comparison with NaN is false.\<close>

fun flt :: "pyfloat \<Rightarrow> pyfloat \<Rightarrow> bool" where
  "flt (Num a) (Num b) = (a < b)"
| "flt _ _ = False"

definition fgt :: "pyfloat \<Rightarrow> pyfloat \<Rightarrow> bool" where
  "fgt a b = flt b a"

fun isnan :: "pyfloat \<Rightarrow> bool" where
  "isnan NaN = True"
| "isnan (Num v) = False"

text \<open>\<^verbatim>\<open>str(n)\<close> for a non-negative integer.\<close>

fun str_nat :: "nat \<Rightarrow> string" where
  "str_nat n = (if n < 10 then [''0123456789'' ! n]
                else str_nat (n div 10) @ [''0123456789'' ! (n mod 10)])"

declare str_nat.simps [simp del]

text \<open>\<^verbatim>\<open>xs[i]\<close> and \<^verbatim>\<open>xs.index(v)\<close> on a list, \<^verbatim>\<open>d[k]\<close> on a dict (kept as an association
  list, in insertion order).\<close>

definition list_get :: "'a list \<Rightarrow> nat \<Rightarrow> py_error + 'a" where
  "list_get xs i = (if i < length xs then Inr (xs ! i) else Inl IndexError)"

fun list_index :: "'a list \<Rightarrow> 'a \<Rightarrow> py_error + nat" where
  "list_index [] v = Inl ValueError"
| "list_index (x # xs) v =
     (if x = v then Inr 0
      else (case list_index xs v of Inl e \<Rightarrow> Inl e | Inr i \<Rightarrow> Inr (Suc i)))"

definition dict_keys :: "('k \<times> 'v) list \<Rightarrow> 'k list" where
  "dict_keys d = map fst d"

definition dict_values :: "('k \<times> 'v) list \<Rightarrow> 'v list" where
  "dict_values d = map snd d"

definition dict_get :: "('k \<times> 'v) list \<Rightarrow> 'k \<Rightarrow> py_error + 'v" where
  "dict_get d k = (case map_of d k of None \<Rightarrow> Inl KeyError | Some v \<Rightarrow> Inr v)"

subsection \<open>The dataset\<close>

text \<open>
  The table read from the spreadsheet: a \<^verbatim>\<open>Country\<close> column of strings and numeric
  columns. \<open>columns\<close> lists the numeric column labels; every row has a cell for each
  of them (an empty spreadsheet cell is NaN).
\<close>

record row =
  row_Country :: string
  row_cells :: "string \<Rightarrow> pyfloat"

record dataframe =
  columns :: "string list"
  rows :: "row list"

text \<open>\<^verbatim>\<open>df[df['Country'].isin(selected_countries)]\<close>\<close>

definition isin_filter :: "dataframe \<Rightarrow> string list \<Rightarrow> dataframe" where
  "isin_filter df selected = df\<lparr>rows := filter (\<lambda>r. row_Country r \<in> set selected) (rows df)\<rparr>"

text \<open>\<^verbatim>\<open>filtered_data[filtered_data['Country'] == country]\<close>\<close>

definition eq_filter :: "dataframe \<Rightarrow> string \<Rightarrow> dataframe" where
  "eq_filter df country = df\<lparr>rows := filter (\<lambda>r. row_Country r = country) (rows df)\<rparr>"

text \<open>\<^verbatim>\<open>df[col]\<close>: the column as a series, KeyError for an unknown label.\<close>

definition get_col :: "dataframe \<Rightarrow> string \<Rightarrow> py_error + pyfloat list" where
  "get_col df col =
     (if col \<in> set (columns df) then Inr (map (\<lambda>r. row_cells r col) (rows df))
      else Inl KeyError)"

text \<open>\<^verbatim>\<open>series.iloc[0]\<close>: IndexError on an empty series.\<close>

definition iloc0 :: "'a list \<Rightarrow> py_error + 'a" where
  "iloc0 s = (case s of [] \<Rightarrow> Inl IndexError | v # _ \<Rightarrow> Inr v)"

text \<open>\<^verbatim>\<open>country_data[col].iloc[0]\<close>\<close>

definition cell0 :: "dataframe \<Rightarrow> string \<Rightarrow> py_error + pyfloat" where
  "cell0 df col = (case get_col df col of Inl e \<Rightarrow> Inl e | Inr s \<Rightarrow> iloc0 s)"

text \<open>\<^verbatim>\<open>sorted(df['Country'].unique())\<close>, the options of the country multiselect.\<close>

definition countries :: "dataframe \<Rightarrow> string list" where
  "countries df = sort (remdups (map row_Country (rows df)))"

text \<open>\<^verbatim>\<open>f"{selected_metrics} {year} %"\<close> and its \<^verbatim>\<open>Num\<close> and \<^verbatim>\<open>Obs\<close> siblings.\<close>

definition col_name :: "string \<Rightarrow> nat \<Rightarrow> string \<Rightarrow> string" where
  "col_name prefix year kind = prefix @ '' '' @ str_nat year @ '' '' @ kind"

subsection \<open>The metric catalogue\<close>

definition metrics_mapping :: "(string \<times> string) list" where
  "metrics_mapping =
    [(''Scaler'', ''Scaler: Companies with 10%+ growth''),
     (''High Growth Firm'', ''High Growth Firm: Companies with 20%+ growth''),
     (''Consistent High Growth Firm'', ''Consistent High Growth Firm: Consistent 20%+ growth''),
     (''Consistent Hypergrower'', ''Consistent Hypergrower: Consistent 40%+ growth''),
     (''Gazelle'', ''Gazelle: Young high growth firms''),
     (''Mature High Growth Firm'', ''Mature High Growth Firm: Mature high growth firms''),
     (''Scaleup'', ''Scaleup: Young hypergrowers''),
     (''Superstar'', ''Superstar: Mature hypergrowers'')]"

definition metrics_to_column :: "(string \<times> string) list" where
  "metrics_to_column =
    [(''Scaler'', ''Scaler''),
     (''High Growth Firm'', ''HighGrowthFirm''),
     (''Consistent High Growth Firm'', ''ConsistentHighGrowthFirm''),
     (''Consistent Hypergrower'', ''VeryHighGrowthFirm''),
     (''Gazelle'', ''Gazelle''),
     (''Mature High Growth Firm'', ''Mature''),
     (''Scaleup'', ''Scaleup''),
     (''Superstar'', ''Superstar'')]"

text \<open>\<^verbatim>\<open>list(metrics_mapping.keys())[list(metrics_mapping.values()).index(selected_display)]\<close>\<close>

definition selected_user_metrics :: "string \<Rightarrow> py_error + string" where
  "selected_user_metrics selected_display =
     (case list_index (dict_values metrics_mapping) selected_display of
        Inl e \<Rightarrow> Inl e
      | Inr i \<Rightarrow> list_get (dict_keys metrics_mapping) i)"

text \<open>\<^verbatim>\<open>metrics_to_column[selected_user_metrics]\<close>\<close>

definition selected_metrics :: "string \<Rightarrow> py_error + string" where
  "selected_metrics selected_display =
     (case selected_user_metrics selected_display of
        Inl e \<Rightarrow> Inl e
      | Inr m \<Rightarrow> dict_get metrics_to_column m)"

subsection \<open>The colour palette\<close>

text \<open>
  \<^verbatim>\<open>sns.color_palette("tab10", n)\<close>: the ten colours of the \<^verbatim>\<open>tab10\<close> palette in their
  fixed order; when more than ten colours are asked for, the palette starts over.
\<close>

datatype color = Blue | Orange | Green | Red | Purple | Brown | Pink | Gray | Olive | Cyan

definition tab10 :: "color list" where
  "tab10 = [Blue, Orange, Green, Red, Purple, Brown, Pink, Gray, Olive, Cyan]"

definition color_palette :: "nat \<Rightarrow> color list" where
  "color_palette n = map (\<lambda>i. tab10 ! (i mod 10)) [0..<n]"

subsection \<open>The trend view\<close>

definition x_years :: "nat list" where
  "x_years = [2019, 2020, 2021, 2022, 2023]"

text \<open>One point of a country's series: the body of the loop over the years.\<close>

definition trend_value :: "dataframe \<Rightarrow> string \<Rightarrow> nat \<Rightarrow> py_error + pyfloat" where
  "trend_value country_data prefix year =
     (let col = col_name prefix year ''%'' in
      if col \<in> set (columns country_data) then
        (case cell0 country_data col of Inl e \<Rightarrow> Inl e | Inr v \<Rightarrow> Inr (fmul v 100))
      else Inr NaN)"

fun trend_ylist :: "dataframe \<Rightarrow> string \<Rightarrow> nat list \<Rightarrow> py_error + pyfloat list" where
  "trend_ylist country_data prefix [] = Inr []"
| "trend_ylist country_data prefix (year # rest) =
     (case trend_value country_data prefix year of
        Inl e \<Rightarrow> Inl e
      | Inr v \<Rightarrow>
          (case trend_ylist country_data prefix rest of
             Inl e \<Rightarrow> Inl e
           | Inr vs \<Rightarrow> Inr (v # vs)))"

record line2d =
  line_x :: "nat list"
  line_y :: "pyfloat list"
  line_color :: color
  line_label :: string

text \<open>The loop \<^verbatim>\<open>for i, country in enumerate(selected_countries)\<close>: one \<^verbatim>\<open>ax.plot\<close> call each.\<close>

fun trend_lines :: "dataframe \<Rightarrow> string \<Rightarrow> color list \<Rightarrow> (nat \<times> string) list \<Rightarrow> py_error + line2d list" where
  "trend_lines filtered_data prefix colors [] = Inr []"
| "trend_lines filtered_data prefix colors ((i, country) # rest) =
     (case trend_ylist (eq_filter filtered_data country) prefix x_years of
        Inl e \<Rightarrow> Inl e
      | Inr ylist \<Rightarrow>
          (case list_get colors i of
             Inl e \<Rightarrow> Inl e
           | Inr c \<Rightarrow>
               (case trend_lines filtered_data prefix colors rest of
                  Inl e \<Rightarrow> Inl e
                | Inr ls \<Rightarrow>
                    Inr (\<lparr>line_x = x_years, line_y = ylist, line_color = c, line_label = country\<rparr> # ls))))"

text \<open>The value labels: one \<^verbatim>\<open>ax.annotate\<close> per point that is not NaN.\<close>

fun annotations_of :: "nat list \<Rightarrow> pyfloat list \<Rightarrow> (nat \<times> real) list" where
  "annotations_of (xj # xs) (Num v # vs) = (xj, v) # annotations_of xs vs"
| "annotations_of (xj # xs) (NaN # vs) = annotations_of xs vs"
| "annotations_of _ _ = []"

record trend_chart =
  tc_lines :: "line2d list"
  tc_annotations :: "(nat \<times> real) list"
  tc_ylim :: "real \<times> real"
  tc_xticks :: "nat list"
  tc_legend_ncol :: nat

text \<open>
  The first tab. \<open>get_ylim\<close> stands for \<^verbatim>\<open>ax.get_ylim()\<close>: the limits the axes report once
  the lines are plotted, as a function of the plotted series. The script then calls
  \<^verbatim>\<open>ax.set_ylim(0, top * 1.1)\<close>.
\<close>

definition trend_view ::
  "(pyfloat list list \<Rightarrow> real \<times> real) \<Rightarrow> dataframe \<Rightarrow> string \<Rightarrow> string list \<Rightarrow> py_error + trend_chart" where
  "trend_view get_ylim filtered_data prefix selected_countries =
     (let colors = color_palette (length selected_countries) in
      case trend_lines filtered_data prefix colors (enumerate 0 selected_countries) of
        Inl e \<Rightarrow> Inl e
      | Inr ls \<Rightarrow>
          (case get_ylim (map line_y ls) of
             (ybottom, ytop) \<Rightarrow>
               Inr \<lparr>tc_lines = ls,
                    tc_annotations = concat (map (\<lambda>l. annotations_of (line_x l) (line_y l)) ls),
                    tc_ylim = (0, ytop * 1.1),
                    tc_xticks = x_years,
                    tc_legend_ncol = min 5 (length selected_countries)\<rparr>))"

text \<open>
  The limits the plotting library reports by default after plotting: the span of the
  finite plotted values, widened on both sides by the margin (5 percent of the span by
  default); a single value is first widened by 5 percent of its size, and an axes with
  no finite value gets the span from -0.05 to 0.05.
\<close>

definition finite_values :: "pyfloat list list \<Rightarrow> real list" where
  "finite_values yss = concat (map (\<lambda>ys. concat (map (\<lambda>y. case y of Num v \<Rightarrow> [v] | NaN \<Rightarrow> []) ys)) yss)"

definition nonsingular :: "real list \<Rightarrow> real \<times> real" where
  "nonsingular vs =
     (case vs of
        [] \<Rightarrow> (- 0.05, 0.05)
      | v # rest \<Rightarrow>
          (let lo = fold min rest v; hi = fold max rest v in
           if lo = hi then (if lo = 0 then (- 0.05, 0.05) else (lo - 0.05 * \<bar>lo\<bar>, hi + 0.05 * \<bar>hi\<bar>))
           else (lo, hi)))"

definition autoscale_ylim :: "real \<Rightarrow> pyfloat list list \<Rightarrow> real \<times> real" where
  "autoscale_ylim margin yss =
     (case nonsingular (finite_values yss) of
        (lo, hi) \<Rightarrow> (lo - (hi - lo) * margin, hi + (hi - lo) * margin))"

subsection \<open>Sorting and maximum as the interpreter computes them\<close>

text \<open>
  \<^verbatim>\<open>sorted(xs, key=..., reverse=True)\<close> on float keys. The interpreter reverses the list,
  sorts it ascending and stably using only \<^verbatim>\<open><\<close> on the keys, and reverses the result.
  The ascending sort is the one the interpreter applies to a list of fewer than 64
  elements: it takes the longest run at the front, non-descending or strictly descending
  (then reversed), and inserts each remaining element by binary search. A longer list
  is merged from several such runs, with the same result whenever no key is NaN.
\<close>

fun count_asc :: "pyfloat \<Rightarrow> pyfloat list \<Rightarrow> nat" where
  "count_asc prev [] = 0"
| "count_asc prev (k # ks) = (if flt k prev then 0 else Suc (count_asc k ks))"

fun count_desc :: "pyfloat \<Rightarrow> pyfloat list \<Rightarrow> nat" where
  "count_desc prev [] = 0"
| "count_desc prev (k # ks) = (if flt k prev then Suc (count_desc k ks) else 0)"

definition count_run :: "pyfloat list \<Rightarrow> nat \<times> bool" where
  "count_run ks =
     (case ks of
        [] \<Rightarrow> (0, False)
      | k0 # ks' \<Rightarrow>
          (case ks' of
             [] \<Rightarrow> (1, False)
           | k1 # rest \<Rightarrow>
               if flt k1 k0 then (2 + count_desc k1 rest, True)
               else (2 + count_asc k1 rest, False)))"

function bisect :: "('a \<Rightarrow> pyfloat) \<Rightarrow> 'a \<Rightarrow> 'a list \<Rightarrow> nat \<Rightarrow> nat \<Rightarrow> nat" where
  "bisect key pivot ys l r =
     (if l < r then
        (let p = l + (r - l) div 2 in
         if flt (key pivot) (key (ys ! p)) then bisect key pivot ys l p
         else bisect key pivot ys (p + 1) r)
      else l)"
  by pat_completeness auto
termination
  by (relation "measure (\<lambda>(key, pivot, ys, l, r). r - l)") auto

declare bisect.simps [simp del]

fun binarysort :: "('a \<Rightarrow> pyfloat) \<Rightarrow> 'a list \<Rightarrow> 'a list \<Rightarrow> 'a list" where
  "binarysort key ys [] = ys"
| "binarysort key ys (pivot # rest) =
     (let l = bisect key pivot ys 0 (length ys)
      in binarysort key (take l ys @ pivot # drop l ys) rest)"

definition list_sort :: "('a \<Rightarrow> pyfloat) \<Rightarrow> 'a list \<Rightarrow> 'a list" where
  "list_sort key xs =
     (if length xs < 2 then xs
      else (case count_run (map key xs) of
              (n, descending) \<Rightarrow>
                binarysort key (if descending then rev (take n xs) else take n xs) (drop n xs)))"

definition sorted_reverse :: "('a \<Rightarrow> pyfloat) \<Rightarrow> 'a list \<Rightarrow> 'a list" where
  "sorted_reverse key xs = rev (list_sort key (rev xs))"

text \<open>\<^verbatim>\<open>max(vs)\<close>: the first element, replaced whenever a later one is \<^verbatim>\<open>>\<close> it.\<close>

fun max_from :: "pyfloat \<Rightarrow> pyfloat list \<Rightarrow> pyfloat" where
  "max_from m [] = m"
| "max_from m (v # vs) = max_from (if fgt v m then v else m) vs"

definition py_max :: "pyfloat list \<Rightarrow> py_error + pyfloat" where
  "py_max vs = (case vs of [] \<Rightarrow> Inl ValueError | v # rest \<Rightarrow> Inr (max_from v rest))"

subsection \<open>The page state\<close>

text \<open>
  What a render pass can touch: the dataset that \<^verbatim>\<open>load_data\<close> returns from its cache, and
  the page, as the sequence of elements written to it. The plotting library refuses a
  NaN axis limit: \<^verbatim>\<open>ax.set_xlim\<close> then raises ValueError.
\<close>

record entry =
  Country :: string
  Percentage :: pyfloat
  Number :: pyfloat
  Total :: pyfloat

record comparison_chart =
  cc_countries :: "string list"
  cc_percentages :: "pyfloat list"
  cc_colors :: "color list"
  cc_xlim :: "real \<times> real"

datatype ui_event =
    Warning string
  | Info string
  | Dataframe dataframe
  | PyplotTrend trend_chart
  | PyplotComparison comparison_chart

record app_state =
  dataset :: dataframe
  ui :: "ui_event list"

definition st_write :: "ui_event \<Rightarrow> app_state \<Rightarrow> app_state" where
  "st_write ev s = s\<lparr>ui := ui s @ [ev]\<rparr>"

definition load_data :: "app_state \<Rightarrow> dataframe" where
  "load_data s = dataset s"

definition set_xlim :: "real \<Rightarrow> pyfloat \<Rightarrow> py_error + real \<times> real" where
  "set_xlim left right = (case right of NaN \<Rightarrow> Inl ValueError | Num r \<Rightarrow> Inr (left, r))"

subsection \<open>The comparison view\<close>

definition latest_year :: nat where
  "latest_year = 2023"

text \<open>The body of the \<^verbatim>\<open>try\<close> block: three lookups, in this order.\<close>

definition comparison_entry :: "dataframe \<Rightarrow> string \<Rightarrow> string \<Rightarrow> py_error + entry" where
  "comparison_entry country_data prefix country =
     (case cell0 country_data (col_name prefix latest_year ''%'') of
        Inl e \<Rightarrow> Inl e
      | Inr v \<Rightarrow>
          (case cell0 country_data (col_name prefix latest_year ''Num'') of
             Inl e \<Rightarrow> Inl e
           | Inr num_companies \<Rightarrow>
               (case cell0 country_data (col_name prefix latest_year ''Obs'') of
                  Inl e \<Rightarrow> Inl e
                | Inr total_obs \<Rightarrow>
                    Inr \<lparr>Country = country, Percentage = fmul v 100,
                         Number = num_companies, Total = total_obs\<rparr>)))"

definition incomplete_message :: "string \<Rightarrow> string" where
  "incomplete_message country =
     ''Data for '' @ country @ '' in '' @ str_nat latest_year @ '' is incomplete.''"

text \<open>
  The loop over the selected countries. \<^verbatim>\<open>except (KeyError, IndexError)\<close> writes the
  warning and goes on; any other error leaves the loop.
\<close>

fun comparison_loop ::
  "dataframe \<Rightarrow> string \<Rightarrow> string list \<Rightarrow> entry list \<Rightarrow> app_state \<Rightarrow> (py_error + entry list) \<times> app_state" where
  "comparison_loop filtered_data prefix [] latest_data s = (Inr latest_data, s)"
| "comparison_loop filtered_data prefix (country # rest) latest_data s =
     (case comparison_entry (eq_filter filtered_data country) prefix country of
        Inr e \<Rightarrow> comparison_loop filtered_data prefix rest (latest_data @ [e]) s
      | Inl err \<Rightarrow>
          if err = KeyError \<or> err = IndexError then
            comparison_loop filtered_data prefix rest latest_data
              (st_write (Warning (incomplete_message country)) s)
          else (Inl err, s))"

text \<open>The sorted entries and the two lists handed to \<^verbatim>\<open>ax.barh\<close>.\<close>

definition sorted_latest :: "entry list \<Rightarrow> entry list" where
  "sorted_latest latest_data = sorted_reverse Percentage latest_data"

definition comparison_bars :: "entry list \<Rightarrow> string list \<times> pyfloat list" where
  "comparison_bars latest_data =
     (map Country (sorted_latest latest_data), map Percentage (sorted_latest latest_data))"

text \<open>
  The second tab. The result pairs the error that ended the pass, if any, with the
  page state reached.
\<close>

definition comparison_view ::
  "dataframe \<Rightarrow> string \<Rightarrow> string list \<Rightarrow> app_state \<Rightarrow> py_error option \<times> app_state" where
  "comparison_view filtered_data prefix selected_countries s =
     (if length selected_countries > 1 then
        (case comparison_loop filtered_data prefix selected_countries [] s of
           (Inl e, s1) \<Rightarrow> (Some e, s1)
         | (Inr latest_data, s1) \<Rightarrow>
             if latest_data \<noteq> [] then
               (case comparison_bars latest_data of
                  (cs, percentages) \<Rightarrow>
                    (case py_max percentages of
                       Inl e \<Rightarrow> (Some e, s1)
                     | Inr m \<Rightarrow>
                         (case set_xlim 0 (fmul m 1.2) of
                            Inl e \<Rightarrow> (Some e, s1)
                          | Inr xl \<Rightarrow>
                              (None, st_write (PyplotComparison
                                 \<lparr>cc_countries = cs, cc_percentages = percentages,
                                  cc_colors = color_palette (length cs), cc_xlim = xl\<rparr>) s1))))
             else (None, st_write (Warning ''Insufficient data for comparison in 2023.'') s1))
      else (None, st_write (Info ''Select at least two countries to view comparison.'') s))"

subsection \<open>The render pass\<close>

text \<open>
  \<^verbatim>\<open>main\<close>, given what the two widgets return: the display label chosen in the metric
  select box and the countries chosen in the multiselect, in the order chosen.
  The message strings are the source's without the emoji that starts some of them.
\<close>

definition main ::
  "(pyfloat list list \<Rightarrow> real \<times> real) \<Rightarrow> string \<Rightarrow> string list \<Rightarrow> app_state \<Rightarrow> py_error option \<times> app_state" where
  "main get_ylim selected_display selected_countries s =
     (let df = load_data s in
      case selected_metrics selected_display of
        Inl e \<Rightarrow> (Some e, s)
      | Inr prefix \<Rightarrow>
          if selected_countries = [] then
            (None, st_write (Dataframe (df\<lparr>rows := take 5 (rows df)\<rparr>))
                     (st_write (Warning ''Please select at least one country to view the data'') s))
          else
            (let filtered_data = isin_filter df selected_countries in
             case trend_view get_ylim filtered_data prefix selected_countries of
               Inl e \<Rightarrow> (Some e, s)
             | Inr chart \<Rightarrow>
                 comparison_view filtered_data prefix selected_countries
                   (st_write (PyplotTrend chart) s)))"

subsection \<open>Predicates of the statements\<close>

text \<open>A percentage cell that holds a fraction between 0 and 1.\<close>

definition is_fraction :: "pyfloat \<Rightarrow> bool" where
  "is_fraction v = (case v of Num x \<Rightarrow> 0 \<le> x \<and> x \<le> 1 | NaN \<Rightarrow> False)"

text \<open>A column label that ends in a blank and a percent sign.\<close>

definition is_pct_column :: "string \<Rightarrow> bool" where
  "is_pct_column c \<longleftrightarrow> drop (length c - 2) c = '' %''"

definition pct_cells_fractions :: "dataframe \<Rightarrow> bool" where
  "pct_cells_fractions df \<longleftrightarrow>
     list_all (\<lambda>r. list_all (\<lambda>c. is_pct_column c \<longrightarrow> is_fraction (row_cells r c)) (columns df))
       (rows df)"

text \<open>The three lookups of the comparison view all return a value for the country.\<close>

definition lookups_succeed :: "dataframe \<Rightarrow> string \<Rightarrow> string \<Rightarrow> bool" where
  "lookups_succeed filtered_data prefix country \<longleftrightarrow>
     \<not> isl (cell0 (eq_filter filtered_data country) (col_name prefix latest_year ''%'')) \<and>
     \<not> isl (cell0 (eq_filter filtered_data country) (col_name prefix latest_year ''Num'')) \<and>
     \<not> isl (cell0 (eq_filter filtered_data country) (col_name prefix latest_year ''Obs''))"

text \<open>The entry that the \<^verbatim>\<open>try\<close> block appends for a country whose lookups succeed.\<close>

definition entry_of :: "dataframe \<Rightarrow> string \<Rightarrow> string \<Rightarrow> entry" where
  "entry_of fd prefix country = projr (comparison_entry (eq_filter fd country) prefix country)"

text \<open>The entries and the page state that the loop of the comparison view ends with.\<close>

definition survivors :: "dataframe \<Rightarrow> string \<Rightarrow> string list \<Rightarrow> entry list" where
  "survivors filtered_data prefix selected_countries =
     map (entry_of filtered_data prefix)
       (filter (lookups_succeed filtered_data prefix) selected_countries)"

definition with_warnings :: "dataframe \<Rightarrow> string \<Rightarrow> string list \<Rightarrow> app_state \<Rightarrow> app_state" where
  "with_warnings filtered_data prefix selected_countries s =
     s\<lparr>ui := ui s @ map (\<lambda>c. Warning (incomplete_message c))
                      (filter (\<lambda>c. \<not> lookups_succeed filtered_data prefix c) selected_countries)\<rparr>"

text \<open>The values that the trend chart plots: the cells of its lines that are not NaN.\<close>

definition plotted_values :: "trend_chart \<Rightarrow> real list" where
  "plotted_values chart = finite_values (map line_y (tc_lines chart))"

text \<open>The number held by a float that is not NaN.\<close>

definition num :: "pyfloat \<Rightarrow> real" where
  "num v = (case v of Num x \<Rightarrow> x | NaN \<Rightarrow> 0)"

subsection \<open>Example datasets\<close>

definition cells_of :: "(string \<times> pyfloat) list \<Rightarrow> string \<Rightarrow> pyfloat" where
  "cells_of kv c = (case map_of kv c of None \<Rightarrow> NaN | Some v \<Rightarrow> v)"

definition scaler_row :: "string \<Rightarrow> pyfloat \<Rightarrow> pyfloat \<Rightarrow> pyfloat \<Rightarrow> pyfloat \<Rightarrow> row" where
  "scaler_row country pct22 pct23 num23 obs23 =
     \<lparr>row_Country = country,
      row_cells = cells_of [(''Scaler 2022 %'', pct22), (''Scaler 2023 %'', pct23),
                            (''Scaler 2023 Num'', num23), (''Scaler 2023 Obs'', obs23)]\<rparr>"

definition scaler_columns :: "string list" where
  "scaler_columns = [''Scaler 2022 %'', ''Scaler 2023 %'', ''Scaler 2023 Num'', ''Scaler 2023 Obs'']"

text \<open>Two countries with every cell filled.\<close>

definition small_df :: dataframe where
  "small_df =
     \<lparr>columns = scaler_columns,
      rows = [scaler_row ''France'' (Num 0.12) (Num 0.10) (Num 20) (Num 200),
              scaler_row ''Germany'' (Num 0.10) (Num 0.15) (Num 30) (Num 200)]\<rparr>"

text \<open>Eleven countries; the 2023 percentage cell of Belgium is empty.\<close>

definition europe_df :: dataframe where
  "europe_df =
     \<lparr>columns = scaler_columns,
      rows = [scaler_row ''Austria'' (Num 0.10) (Num 0.01) (Num 1) (Num 100),
              scaler_row ''Belgium'' (Num 0.11) NaN (Num 3) (Num 100),
              scaler_row ''Croatia'' (Num 0.15) (Num 0.02) (Num 2) (Num 100),
              scaler_row ''Denmark'' (Num 0.12) (Num 0.12) (Num 12) (Num 100),
              scaler_row ''Estonia'' (Num 0.13) (Num 0.13) (Num 13) (Num 100),
              scaler_row ''Finland'' (Num 0.14) (Num 0.14) (Num 14) (Num 100),
              scaler_row ''Greece'' (Num 0.10) (Num 0.10) (Num 10) (Num 100),
              scaler_row ''Hungary'' (Num 0.11) (Num 0.11) (Num 11) (Num 100),
              scaler_row ''Ireland'' (Num 0.12) (Num 0.12) (Num 12) (Num 100),
              scaler_row ''Latvia'' (Num 0.13) (Num 0.13) (Num 13) (Num 100),
              scaler_row ''Malta'' (Num 0.14) (Num 0.14) (Num 14) (Num 100)]\<rparr>"

text \<open>The countries of this dataset, in table order.\<close>

definition eleven_countries :: "string list" where
  "eleven_countries = [''Austria'', ''Belgium'', ''Croatia'', ''Denmark'', ''Estonia'',
     ''Finland'', ''Greece'', ''Hungary'', ''Ireland'', ''Latvia'', ''Malta'']"

text \<open>Four entries without NaN, two of them with the same percentage.\<close>

definition four_entries :: "entry list" where
  "four_entries =
     [\<lparr>Country = ''Austria'', Percentage = Num 1, Number = Num 1, Total = Num 100\<rparr>,
      \<lparr>Country = ''Denmark'', Percentage = Num 12, Number = Num 12, Total = Num 100\<rparr>,
      \<lparr>Country = ''Croatia'', Percentage = Num 2, Number = Num 2, Total = Num 100\<rparr>,
      \<lparr>Country = ''Ireland'', Percentage = Num 12, Number = Num 12, Total = Num 100\<rparr>]"

section \<open>Properties\<close>

subsection \<open>Evaluation helpers\<close>

lemma str_nat_years:
  "str_nat 2019 = ''2019''" "str_nat 2020 = ''2020''" "str_nat 2021 = ''2021''"
  "str_nat 2022 = ''2022''" "str_nat 2023 = ''2023''"
  by (simp_all add: str_nat.simps)

lemma col_name_scaler:
  "col_name ''Scaler'' 2019 ''%'' = ''Scaler 2019 %''"
  "col_name ''Scaler'' 2020 ''%'' = ''Scaler 2020 %''"
  "col_name ''Scaler'' 2021 ''%'' = ''Scaler 2021 %''"
  "col_name ''Scaler'' 2022 ''%'' = ''Scaler 2022 %''"
  "col_name ''Scaler'' 2023 ''%'' = ''Scaler 2023 %''"
  "col_name ''Scaler'' 2023 ''Num'' = ''Scaler 2023 Num''"
  "col_name ''Scaler'' 2023 ''Obs'' = ''Scaler 2023 Obs''"
  by (simp_all add: col_name_def str_nat_years)

subsection \<open>Table operations\<close>

lemma columns_eq_filter [simp]: "columns (eq_filter df c) = columns df"
  by (simp add: eq_filter_def)

lemma columns_isin_filter [simp]: "columns (isin_filter df sel) = columns df"
  by (simp add: isin_filter_def)

lemma rows_eq_filter [simp]: "rows (eq_filter df c) = filter (\<lambda>r. row_Country r = c) (rows df)"
  by (simp add: eq_filter_def)

lemma rows_isin_filter [simp]:
  "rows (isin_filter df sel) = filter (\<lambda>r. row_Country r \<in> set sel) (rows df)"
  by (simp add: isin_filter_def)

lemma rows_eq_isin:
  "c \<in> set sel \<Longrightarrow>
     rows (eq_filter (isin_filter df sel) c) = filter (\<lambda>r. row_Country r = c) (rows df)"
  by (auto intro: filter_cong)

lemma set_countries [simp]: "set (countries df) = row_Country ` set (rows df)"
  by (simp add: countries_def)

lemma cell0_eq:
  "cell0 df col =
     (if col \<in> set (columns df)
      then (case rows df of [] \<Rightarrow> Inl IndexError | r # _ \<Rightarrow> Inr (row_cells r col))
      else Inl KeyError)"
  by (simp add: cell0_def get_col_def iloc0_def split: list.splits)

lemma cell0_errors: "cell0 df col = Inl e \<Longrightarrow> e = KeyError \<or> e = IndexError"
  by (auto simp: cell0_eq split: if_splits list.splits)

lemma is_pct_column_col_name: "is_pct_column (col_name prefix year ''%'')"
proof -
  have "col_name prefix year ''%'' = (prefix @ '' '' @ str_nat year) @ '' %''"
    by (simp add: col_name_def)
  then show ?thesis
    unfolding is_pct_column_def by (simp del: append_assoc)
qed

lemma find_filter_hd: "filter P xs = r # rs \<Longrightarrow> find P xs = Some r"
  by (induction xs) (auto split: if_splits)

lemma filter_nonempty_ex: "x \<in> set xs \<Longrightarrow> P x \<Longrightarrow> \<exists>r rs. filter P xs = r # rs"
  by (metis empty_filter_conv neq_Nil_conv)

subsection \<open>Extraction in the trend view\<close>

text \<open>
  Claim C1. In a dataset whose percentage cells are fractions between 0 and 1, for
  every column prefix, every selected country that occurs in the Country column and
  every year of 2019 to 2023, the trend view's extraction returns a value and raises
  nothing: when the column "prefix year %" exists, the value is the cell of the
  country's first row times 100, a number between 0 and 100; when the column does
  not exist, the value is NaN.
\<close>

theorem trend_extraction_total:
  assumes frac: "pct_cells_fractions df"
    and sel: "country \<in> set selected_countries"
    and present: "country \<in> set (countries df)"
    and year: "year \<in> set x_years"
  shows "\<exists>v. trend_value (eq_filter (isin_filter df selected_countries) country) prefix year = Inr v \<and>
     (if col_name prefix year ''%'' \<in> set (columns df)
      then \<exists>r x. find (\<lambda>r. row_Country r = country) (rows df) = Some r \<and>
             row_cells r (col_name prefix year ''%'') = Num x \<and>
             v = Num (x * 100) \<and> 0 \<le> x * 100 \<and> x * 100 \<le> 100
      else v = NaN)"
proof (cases "col_name prefix year ''%'' \<in> set (columns df)")
  case False
  then show ?thesis by (simp add: trend_value_def)
next
  case True
  from present obtain r0 where "r0 \<in> set (rows df)" "row_Country r0 = country"
    by auto
  then obtain r rs where rows: "filter (\<lambda>r. row_Country r = country) (rows df) = r # rs"
    using filter_nonempty_ex [of r0 "rows df" "\<lambda>r. row_Country r = country"] by blast
  then have "r \<in> set (rows df)"
    by (metis filter_is_subset list.set_intros(1) subsetD)
  with frac True have "is_fraction (row_cells r (col_name prefix year ''%''))"
    by (auto simp: pct_cells_fractions_def list_all_iff is_pct_column_col_name)
  then obtain x where x: "row_cells r (col_name prefix year ''%'') = Num x" "0 \<le> x" "x \<le> 1"
    by (auto simp: is_fraction_def split: pyfloat.splits)
  have "trend_value (eq_filter (isin_filter df selected_countries) country) prefix year
          = Inr (Num (x * 100))"
    using True rows x sel
    by (simp add: trend_value_def cell0_eq rows_eq_isin del: rows_eq_filter rows_isin_filter)
  moreover have "find (\<lambda>r. row_Country r = country) (rows df) = Some r"
    using rows by (rule find_filter_hd)
  ultimately show ?thesis using True x by auto
qed

theorem trend_extraction_total_witness:
  "pct_cells_fractions small_df \<and> ''Germany'' \<in> set [''Germany'', ''France''] \<and>
   ''Germany'' \<in> set (countries small_df) \<and> 2023 \<in> set x_years \<and>
   trend_value (eq_filter (isin_filter small_df [''Germany'', ''France'']) ''Germany'') ''Scaler'' 2023
     = Inr (Num 15)"
proof -
  have h1: "pct_cells_fractions small_df"
    by (simp add: pct_cells_fractions_def small_df_def scaler_columns_def scaler_row_def
        cells_of_def is_pct_column_def is_fraction_def)
  have h2: "''Germany'' \<in> set [''Germany'', ''France'']" by simp
  have h3: "''Germany'' \<in> set (countries small_df)"
    by (simp add: small_df_def scaler_row_def)
  have h4: "2023 \<in> set x_years" by (simp add: x_years_def)
  have c: "col_name ''Scaler'' 2023 ''%'' \<in> set (columns small_df)"
    by (simp add: col_name_scaler small_df_def scaler_columns_def)
  from trend_extraction_total [OF h1 h2 h3 h4, of "''Scaler''"] c
  obtain v r x where
    v: "trend_value (eq_filter (isin_filter small_df [''Germany'', ''France'']) ''Germany'') ''Scaler'' 2023 = Inr v"
    and r: "find (\<lambda>r. row_Country r = ''Germany'') (rows small_df) = Some r"
    and x: "row_cells r (col_name ''Scaler'' 2023 ''%'') = Num x"
    and vx: "v = Num (x * 100)"
    by auto
  from r have "r = scaler_row ''Germany'' (Num 0.10) (Num 0.15) (Num 30) (Num 200)"
    by (simp add: small_df_def scaler_row_def)
  with x have "x = 0.15"
    by (simp add: col_name_scaler scaler_row_def cells_of_def)
  with v vx have "trend_value (eq_filter (isin_filter small_df [''Germany'', ''France'']) ''Germany'') ''Scaler'' 2023
     = Inr (Num 15)" by simp
  with h1 h2 h3 h4 show ?thesis by blast
qed

subsection \<open>The metric catalogue\<close>

text \<open>
  Claim C6. For each of the eight display labels offered by the metric select box, the
  reverse lookup from the label to the metric name, followed by the lookup of the
  column prefix, succeeds and gives Scaler, HighGrowthFirm, ConsistentHighGrowthFirm,
  VeryHighGrowthFirm, Gazelle, Mature, Scaleup and Superstar, in this order.
\<close>

theorem metric_round_trip:
  "map selected_metrics (dict_values metrics_mapping) =
     [Inr ''Scaler'', Inr ''HighGrowthFirm'', Inr ''ConsistentHighGrowthFirm'',
      Inr ''VeryHighGrowthFirm'', Inr ''Gazelle'', Inr ''Mature'', Inr ''Scaleup'',
      Inr ''Superstar'']"
  by (simp add: selected_metrics_def selected_user_metrics_def metrics_mapping_def
      metrics_to_column_def dict_values_def dict_keys_def dict_get_def list_get_def)

subsection \<open>The sort returns a permutation\<close>

lemma mset_binarysort: "mset (binarysort key ys rest) = mset ys + mset rest"
proof (induction rest arbitrary: ys)
  case Nil
  then show ?case by simp
next
  case (Cons pivot rest)
  have "mset (take l ys @ pivot # drop l ys) = mset ys + {#pivot#}" for l
  proof -
    have "mset (take l ys) + mset (drop l ys) = mset ys"
      by (metis append_take_drop_id mset_append)
    then show ?thesis by simp
  qed
  with Cons.IH show ?case by (simp add: Let_def)
qed

lemma mset_list_sort: "mset (list_sort key xs) = mset xs"
proof -
  have "mset (take n xs) + mset (drop n xs) = mset xs" for n
    by (metis append_take_drop_id mset_append)
  then show ?thesis
    by (auto simp: list_sort_def mset_binarysort split: prod.splits)
qed

lemma mset_sorted_reverse: "mset (sorted_reverse key xs) = mset xs"
  by (simp add: sorted_reverse_def mset_list_sort)

lemma set_sorted_reverse: "set (sorted_reverse key xs) = set xs"
  by (metis mset_sorted_reverse set_mset_mset)

lemma length_sorted_reverse: "length (sorted_reverse key xs) = length xs"
  by (metis mset_sorted_reverse size_mset)

subsection \<open>The loop of the comparison view\<close>

lemma comparison_entry_errors:
  "comparison_entry cd prefix country = Inl e \<Longrightarrow> e = KeyError \<or> e = IndexError"
  by (auto simp: comparison_entry_def split: sum.splits dest: cell0_errors)

lemma comparison_entry_Inr_iff:
  "(\<exists>e. comparison_entry (eq_filter fd country) prefix country = Inr e)
     \<longleftrightarrow> lookups_succeed fd prefix country"
  by (auto simp: comparison_entry_def lookups_succeed_def split: sum.splits)

lemma comparison_entry_Country:
  "comparison_entry cd prefix country = Inr e \<Longrightarrow> Country e = country"
  by (auto simp: comparison_entry_def split: sum.splits)

lemma lookups_succeed_iff:
  "lookups_succeed fd prefix country \<longleftrightarrow>
     col_name prefix latest_year ''%'' \<in> set (columns fd) \<and>
     col_name prefix latest_year ''Num'' \<in> set (columns fd) \<and>
     col_name prefix latest_year ''Obs'' \<in> set (columns fd) \<and>
     country \<in> row_Country ` set (rows fd)"
proof -
  have "(filter (\<lambda>r. row_Country r = country) (rows fd) = []) \<longleftrightarrow>
          country \<notin> row_Country ` set (rows fd)"
    by (auto simp: filter_empty_conv)
  then show ?thesis
    by (auto simp: lookups_succeed_def cell0_eq split: list.splits)
qed

lemma comparison_loop_eq:
  "comparison_loop fd prefix sel acc s =
     (Inr (acc @ map (entry_of fd prefix) (filter (lookups_succeed fd prefix) sel)),
      s\<lparr>ui := ui s @ map (\<lambda>c. Warning (incomplete_message c))
                       (filter (\<lambda>c. \<not> lookups_succeed fd prefix c) sel)\<rparr>)"
proof (induction sel arbitrary: acc s)
  case Nil
  then show ?case by simp
next
  case (Cons country rest)
  show ?case
  proof (cases "comparison_entry (eq_filter fd country) prefix country")
    case (Inl err)
    then have "\<not> lookups_succeed fd prefix country"
      using comparison_entry_Inr_iff [of fd country prefix] by auto
    moreover from Inl have "err = KeyError \<or> err = IndexError"
      by (rule comparison_entry_errors)
    ultimately show ?thesis
      using Inl Cons.IH by (auto simp: st_write_def)
  next
    case (Inr e)
    then have "lookups_succeed fd prefix country"
      using comparison_entry_Inr_iff [of fd country prefix] by auto
    then show ?thesis
      using Inr Cons.IH by (simp add: entry_of_def)
  qed
qed

lemma Country_entry_of:
  "lookups_succeed fd prefix country \<Longrightarrow> Country (entry_of fd prefix country) = country"
  using comparison_entry_Inr_iff [of fd country prefix] comparison_entry_Country
  by (fastforce simp: entry_of_def)

lemma map_Country_entry_of:
  "map Country (map (entry_of fd prefix) (filter (lookups_succeed fd prefix) sel))
     = filter (lookups_succeed fd prefix) sel"
  by (induction sel) (auto simp: Country_entry_of)

text \<open>
  Claim C2. The loop of the comparison view always runs to its end. The countries of
  the entries it collects are exactly the selected countries whose three lookups for
  2023 (percentage, Num, Obs) succeed, in selection order; each other selected
  country gets one warning of its own and no entry, and the countries after it are
  still processed.
\<close>

theorem comparison_loop_inclusion:
  "\<exists>latest_data s'.
     comparison_loop filtered_data prefix selected_countries [] s = (Inr latest_data, s') \<and>
     map Country latest_data = filter (lookups_succeed filtered_data prefix) selected_countries \<and>
     (\<forall>c \<in> set selected_countries.
        c \<in> set (map Country latest_data) \<longleftrightarrow> lookups_succeed filtered_data prefix c) \<and>
     ui s' = ui s @ map (\<lambda>c. Warning (incomplete_message c))
                      (filter (\<lambda>c. \<not> lookups_succeed filtered_data prefix c) selected_countries)"
proof -
  define latest where "latest = map (entry_of filtered_data prefix)
                   (filter (lookups_succeed filtered_data prefix) selected_countries)"
  define s' where "s' = s\<lparr>ui := ui s @ map (\<lambda>c. Warning (incomplete_message c))
      (filter (\<lambda>c. \<not> lookups_succeed filtered_data prefix c) selected_countries)\<rparr>"
  have run: "comparison_loop filtered_data prefix selected_countries [] s = (Inr latest, s')"
    by (simp only: comparison_loop_eq append_Nil latest_def s'_def)
  have m: "map Country latest = filter (lookups_succeed filtered_data prefix) selected_countries"
    unfolding latest_def by (rule map_Country_entry_of)
  have b: "\<forall>c \<in> set selected_countries.
          c \<in> set (map Country latest) \<longleftrightarrow> lookups_succeed filtered_data prefix c"
    unfolding m by simp
  have u: "ui s' = ui s @ map (\<lambda>c. Warning (incomplete_message c))
      (filter (\<lambda>c. \<not> lookups_succeed filtered_data prefix c) selected_countries)"
    by (simp add: s'_def)
  from run m b u show ?thesis by blast
qed

lemma small_df_lookups:
  "lookups_succeed (isin_filter small_df sel) ''Scaler'' c \<longleftrightarrow>
     (c = ''France'' \<or> c = ''Germany'') \<and> c \<in> set sel"
  by (auto simp: lookups_succeed_iff col_name_scaler latest_year_def small_df_def
      scaler_columns_def scaler_row_def)

lemma incomplete_message_eval:
  "incomplete_message c = ''Data for '' @ c @ '' in 2023 is incomplete.''"
  by (simp add: incomplete_message_def latest_year_def str_nat_years)

theorem comparison_loop_inclusion_witness:
  "\<exists>latest_data s'.
     comparison_loop (isin_filter small_df [''Germany'', ''Atlantis'', ''France''])
       ''Scaler'' [''Germany'', ''Atlantis'', ''France''] [] \<lparr>dataset = small_df, ui = []\<rparr>
       = (Inr latest_data, s') \<and>
     map Country latest_data = [''Germany'', ''France''] \<and>
     ui s' = [Warning ''Data for Atlantis in 2023 is incomplete.'']"
proof -
  from comparison_loop_inclusion
    [of "isin_filter small_df [''Germany'', ''Atlantis'', ''France'']" "''Scaler''"
        "[''Germany'', ''Atlantis'', ''France'']" "\<lparr>dataset = small_df, ui = []\<rparr>"]
  obtain latest_data s' where
    run: "comparison_loop (isin_filter small_df [''Germany'', ''Atlantis'', ''France''])
       ''Scaler'' [''Germany'', ''Atlantis'', ''France''] [] \<lparr>dataset = small_df, ui = []\<rparr>
       = (Inr latest_data, s')"
    and m: "map Country latest_data =
       filter (lookups_succeed (isin_filter small_df [''Germany'', ''Atlantis'', ''France'']) ''Scaler'')
         [''Germany'', ''Atlantis'', ''France'']"
    and u: "ui s' = ui \<lparr>dataset = small_df, ui = []\<rparr> @ map (\<lambda>c. Warning (incomplete_message c))
       (filter (\<lambda>c. \<not> lookups_succeed (isin_filter small_df [''Germany'', ''Atlantis'', ''France'']) ''Scaler'' c)
         [''Germany'', ''Atlantis'', ''France''])"
    by blast
  from m have a: "map Country latest_data = [''Germany'', ''France'']"
    by (simp add: small_df_lookups)
  from u have b: "ui s' = [Warning ''Data for Atlantis in 2023 is incomplete.'']"
    by (simp add: small_df_lookups incomplete_message_eval)
  show ?thesis
    by (intro exI conjI) (rule run, rule a, rule b)
qed

lemma find_Some_filter: "find P xs = Some r \<Longrightarrow> \<exists>rs. filter P xs = r # rs"
  by (induction xs) (auto split: if_splits)

lemma incomplete_message_inj: "incomplete_message a = incomplete_message b \<longleftrightarrow> a = b"
  by (simp add: incomplete_message_def)

text \<open>
  Claim C10. A selected country whose column "prefix 2023 %" exists, together with the
  Num and Obs columns, and whose row holds NaN in it is not excluded from the
  comparison: the lookups succeed exactly when the three columns and the country's row
  exist, whatever the cells hold, so the \<^verbatim>\<open>try\<close> block yields an entry with a NaN
  percentage, the loop keeps it and writes no warning for the country, and the entry
  is in the sorted list and among the bars handed to \<^verbatim>\<open>ax.barh\<close>.
\<close>

theorem nan_percentage_is_kept:
  assumes pct: "col_name prefix latest_year ''%'' \<in> set (columns filtered_data)"
    and num: "col_name prefix latest_year ''Num'' \<in> set (columns filtered_data)"
    and obs: "col_name prefix latest_year ''Obs'' \<in> set (columns filtered_data)"
    and row: "find (\<lambda>r. row_Country r = country) (rows filtered_data) = Some r"
    and nan: "row_cells r (col_name prefix latest_year ''%'') = NaN"
    and sel: "country \<in> set selected_countries"
  shows "\<exists>e latest_data s'.
     (\<forall>c. lookups_succeed filtered_data prefix c \<longleftrightarrow>
        col_name prefix latest_year ''%'' \<in> set (columns filtered_data) \<and>
        col_name prefix latest_year ''Num'' \<in> set (columns filtered_data) \<and>
        col_name prefix latest_year ''Obs'' \<in> set (columns filtered_data) \<and>
        c \<in> row_Country ` set (rows filtered_data)) \<and>
     comparison_entry (eq_filter filtered_data country) prefix country = Inr e \<and>
     Country e = country \<and> Percentage e = NaN \<and>
     comparison_loop filtered_data prefix selected_countries [] s = (Inr latest_data, s') \<and>
     e \<in> set latest_data \<and>
     Warning (incomplete_message country) \<notin> set (drop (length (ui s)) (ui s')) \<and>
     e \<in> set (sorted_latest latest_data) \<and>
     country \<in> set (fst (comparison_bars latest_data)) \<and>
     NaN \<in> set (snd (comparison_bars latest_data))"
proof -
  from row obtain rs where rows: "filter (\<lambda>r. row_Country r = country) (rows filtered_data) = r # rs"
    using find_Some_filter by fastforce
  have ok: "lookups_succeed filtered_data prefix country"
    using pct num obs rows by (simp add: lookups_succeed_def cell0_eq)
  define e where "e = entry_of filtered_data prefix country"
  have e: "comparison_entry (eq_filter filtered_data country) prefix country = Inr e"
    using ok comparison_entry_Inr_iff [of filtered_data country prefix]
    by (auto simp: e_def entry_of_def)
  have ce: "Country e = country"
    using e by (rule comparison_entry_Country)
  have pe: "Percentage e = NaN"
    using e pct num obs rows nan by (auto simp: comparison_entry_def cell0_eq)
  define latest_data where "latest_data = map (entry_of filtered_data prefix)
      (filter (lookups_succeed filtered_data prefix) selected_countries)"
  define s' where "s' = s\<lparr>ui := ui s @ map (\<lambda>c. Warning (incomplete_message c))
      (filter (\<lambda>c. \<not> lookups_succeed filtered_data prefix c) selected_countries)\<rparr>"
  have run: "comparison_loop filtered_data prefix selected_countries [] s = (Inr latest_data, s')"
    by (simp only: comparison_loop_eq append_Nil latest_data_def s'_def)
  have mem: "e \<in> set latest_data"
    using sel ok by (auto simp: latest_data_def e_def)
  have nowarn: "Warning (incomplete_message country) \<notin> set (drop (length (ui s)) (ui s'))"
    using ok by (auto simp: s'_def incomplete_message_inj)
  have srt: "e \<in> set (sorted_latest latest_data)"
    using mem by (simp add: sorted_latest_def set_sorted_reverse)
  have bars1: "country \<in> set (fst (comparison_bars latest_data))"
    using srt ce by (force simp: comparison_bars_def)
  have bars2: "NaN \<in> set (snd (comparison_bars latest_data))"
    using srt pe by (force simp: comparison_bars_def)
  have only: "\<forall>c. lookups_succeed filtered_data prefix c \<longleftrightarrow>
        col_name prefix latest_year ''%'' \<in> set (columns filtered_data) \<and>
        col_name prefix latest_year ''Num'' \<in> set (columns filtered_data) \<and>
        col_name prefix latest_year ''Obs'' \<in> set (columns filtered_data) \<and>
        c \<in> row_Country ` set (rows filtered_data)"
    by (simp only: lookups_succeed_iff) simp
  show ?thesis
    by (intro exI conjI)
      (rule only, rule e, rule ce, rule pe, rule run, rule mem, rule nowarn, rule srt,
       rule bars1, rule bars2)
qed

theorem nan_percentage_is_kept_witness:
  "col_name ''Scaler'' latest_year ''%'' \<in> set (columns (isin_filter europe_df [''Belgium'', ''Croatia''])) \<and>
   find (\<lambda>r. row_Country r = ''Belgium'') (rows (isin_filter europe_df [''Belgium'', ''Croatia'']))
     = Some (scaler_row ''Belgium'' (Num 0.11) NaN (Num 3) (Num 100)) \<and>
   row_cells (scaler_row ''Belgium'' (Num 0.11) NaN (Num 3) (Num 100))
     (col_name ''Scaler'' latest_year ''%'') = NaN \<and>
   (\<exists>e latest_data s'.
     comparison_entry (eq_filter (isin_filter europe_df [''Belgium'', ''Croatia'']) ''Belgium'')
       ''Scaler'' ''Belgium'' = Inr e \<and>
     Country e = ''Belgium'' \<and> Percentage e = NaN \<and>
     comparison_loop (isin_filter europe_df [''Belgium'', ''Croatia'']) ''Scaler''
       [''Belgium'', ''Croatia''] [] \<lparr>dataset = europe_df, ui = []\<rparr> = (Inr latest_data, s') \<and>
     e \<in> set latest_data \<and>
     ''Belgium'' \<in> set (fst (comparison_bars latest_data)) \<and>
     NaN \<in> set (snd (comparison_bars latest_data)))"
proof -
  let ?fd = "isin_filter europe_df [''Belgium'', ''Croatia'']"
  have h1: "col_name ''Scaler'' latest_year ''%'' \<in> set (columns ?fd)"
    and h2: "col_name ''Scaler'' latest_year ''Num'' \<in> set (columns ?fd)"
    and h3: "col_name ''Scaler'' latest_year ''Obs'' \<in> set (columns ?fd)"
    by (simp_all add: latest_year_def col_name_scaler europe_df_def scaler_columns_def)
  have h4: "find (\<lambda>r. row_Country r = ''Belgium'') (rows ?fd)
     = Some (scaler_row ''Belgium'' (Num 0.11) NaN (Num 3) (Num 100))"
    by (simp add: europe_df_def scaler_row_def)
  have h5: "row_cells (scaler_row ''Belgium'' (Num 0.11) NaN (Num 3) (Num 100))
     (col_name ''Scaler'' latest_year ''%'') = NaN"
    by (simp add: latest_year_def col_name_scaler scaler_row_def cells_of_def)
  have h6: "''Belgium'' \<in> set [''Belgium'', ''Croatia'']" by simp
  from nan_percentage_is_kept [OF h1 h2 h3 h4 h5 h6, of "\<lparr>dataset = europe_df, ui = []\<rparr>"]
  obtain e latest_data s' where
    "comparison_entry (eq_filter ?fd ''Belgium'') ''Scaler'' ''Belgium'' = Inr e"
    "Country e = ''Belgium''" "Percentage e = NaN"
    "comparison_loop ?fd ''Scaler'' [''Belgium'', ''Croatia''] [] \<lparr>dataset = europe_df, ui = []\<rparr>
       = (Inr latest_data, s')"
    "e \<in> set latest_data"
    "''Belgium'' \<in> set (fst (comparison_bars latest_data))"
    "NaN \<in> set (snd (comparison_bars latest_data))"
    by blast
  then have "\<exists>e latest_data s'.
     comparison_entry (eq_filter ?fd ''Belgium'') ''Scaler'' ''Belgium'' = Inr e \<and>
     Country e = ''Belgium'' \<and> Percentage e = NaN \<and>
     comparison_loop ?fd ''Scaler'' [''Belgium'', ''Croatia''] [] \<lparr>dataset = europe_df, ui = []\<rparr>
       = (Inr latest_data, s') \<and>
     e \<in> set latest_data \<and>
     ''Belgium'' \<in> set (fst (comparison_bars latest_data)) \<and>
     NaN \<in> set (snd (comparison_bars latest_data))"
    by (intro exI conjI)
  with h1 h4 h5 show ?thesis by (intro conjI)
qed

subsection \<open>The palette\<close>

lemma length_color_palette [simp]: "length (color_palette n) = n"
  by (simp add: color_palette_def)

lemma nth_color_palette: "i < n \<Longrightarrow> color_palette n ! i = tab10 ! (i mod 10)"
  by (simp add: color_palette_def)

lemma color_palette_take: "n \<le> 10 \<Longrightarrow> color_palette n = take n tab10"
  by (rule nth_equalityI) (simp_all add: color_palette_def tab10_def)

lemma distinct_color_palette: "n \<le> 10 \<Longrightarrow> distinct (color_palette n)"
  by (simp add: color_palette_take tab10_def)

subsection \<open>The lines of the trend view\<close>

lemma trend_value_ok:
  "rows cd \<noteq> [] \<Longrightarrow> \<exists>v. trend_value cd prefix year = Inr v"
  by (auto simp: trend_value_def cell0_eq Let_def split: list.splits)

lemma trend_ylist_ok:
  "rows cd \<noteq> [] \<Longrightarrow> \<exists>vs. trend_ylist cd prefix years = Inr vs \<and> length vs = length years"
proof (induction years)
  case Nil
  then show ?case by simp
next
  case (Cons year years)
  from Cons.prems obtain v where "trend_value cd prefix year = Inr v"
    using trend_value_ok by blast
  moreover from Cons obtain vs where "trend_ylist cd prefix years = Inr vs" "length vs = length years"
    by blast
  ultimately show ?case by simp
qed

lemma trend_lines_ok:
  assumes "\<forall>(i, c) \<in> set ics. i < length colors \<and> rows (eq_filter fd c) \<noteq> []"
  shows "\<exists>ls. trend_lines fd prefix colors ics = Inr ls \<and>
           map line_label ls = map snd ics \<and>
           map line_color ls = map (\<lambda>ic. colors ! fst ic) ics \<and>
           map line_x ls = map (\<lambda>ic. x_years) ics \<and>
           map (\<lambda>l. length (line_y l)) ls = map (\<lambda>ic. length x_years) ics"
  using assms
proof (induction ics)
  case Nil
  then show ?case by simp
next
  case (Cons ic ics)
  obtain i c where ic: "ic = (i, c)" by (cases ic)
  from Cons.prems ic have i: "i < length colors" and r: "rows (eq_filter fd c) \<noteq> []"
    by auto
  from r obtain ylist where y: "trend_ylist (eq_filter fd c) prefix x_years = Inr ylist"
    "length ylist = length x_years"
    using trend_ylist_ok by blast
  from Cons obtain ls where ls: "trend_lines fd prefix colors ics = Inr ls"
    "map line_label ls = map snd ics"
    "map line_color ls = map (\<lambda>ic. colors ! fst ic) ics"
    "map line_x ls = map (\<lambda>ic. x_years) ics"
    "map (\<lambda>l. length (line_y l)) ls = map (\<lambda>ic. length x_years) ics"
    by auto
  show ?case using ic i y ls by (simp add: list_get_def)
qed

lemma map_snd_enumerate: "map snd (enumerate 0 xs) = xs"
  by (simp add: enumerate_eq_zip)

lemma map_nth_enumerate:
  "length cs = length xs \<Longrightarrow> map (\<lambda>ic. cs ! fst ic) (enumerate 0 xs) = cs"
  by (rule nth_equalityI) (simp_all add: nth_enumerate_eq)

lemma selected_rows_nonempty:
  "c \<in> set sel \<Longrightarrow> c \<in> set (countries df) \<Longrightarrow> rows (eq_filter (isin_filter df sel) c) \<noteq> []"
  by (auto simp: rows_eq_isin filter_empty_conv simp del: rows_eq_filter rows_isin_filter)

lemma trend_view_ok:
  assumes sub: "set sel \<subseteq> set (countries df)"
  shows "\<exists>chart. trend_view get_ylim (isin_filter df sel) prefix sel = Inr chart \<and>
           map line_label (tc_lines chart) = sel \<and>
           map line_color (tc_lines chart) = color_palette (length sel) \<and>
           tc_ylim chart = (0, snd (get_ylim (map line_y (tc_lines chart))) * 1.1)"
proof -
  have "\<forall>(i, c) \<in> set (enumerate 0 sel).
          i < length (color_palette (length sel)) \<and> rows (eq_filter (isin_filter df sel) c) \<noteq> []"
    using sub selected_rows_nonempty [of _ sel df]
    by (auto simp: in_set_enumerate_eq subset_iff simp del: rows_eq_filter rows_isin_filter set_countries)
  from trend_lines_ok [OF this, of prefix]
  obtain ls where ls: "trend_lines (isin_filter df sel) prefix (color_palette (length sel)) (enumerate 0 sel) = Inr ls"
    "map line_label ls = map snd (enumerate 0 sel)"
    "map line_color ls = map (\<lambda>ic. color_palette (length sel) ! fst ic) (enumerate 0 sel)"
    by blast
  have col: "map line_color ls = color_palette (length sel)"
    using ls(3) by (simp only: map_nth_enumerate length_color_palette)
  have lab: "map line_label ls = sel"
    using ls(2) by (simp only: map_snd_enumerate)
  show ?thesis
    using ls(1) col lab by (simp add: trend_view_def Let_def split: prod.splits)
qed

lemma map_Country_europe: "map row_Country (rows europe_df) = eleven_countries"
  by (simp add: europe_df_def scaler_row_def eleven_countries_def)

lemma eleven_sub: "set eleven_countries \<subseteq> set (countries europe_df)"
proof -
  have "set (countries europe_df) = set (map row_Country (rows europe_df))"
    by (simp only: countries_def set_sort set_remdups)
  then show ?thesis by (simp only: map_Country_europe subset_refl)
qed

lemma palette_eleven_repeats: "\<not> distinct (color_palette 11)"
proof -
  have "color_palette 11 ! 0 = color_palette 11 ! 10"
    by (simp add: nth_color_palette)
  moreover have "(0::nat) < length (color_palette 11)" "(10::nat) < length (color_palette 11)" "(0::nat) \<noteq> 10"
    by simp_all
  ultimately show ?thesis
    unfolding distinct_conv_nth by blast
qed

lemma countries_small: "set (countries small_df) = set [''France'', ''Germany'']"
proof -
  have "map row_Country (rows small_df) = [''France'', ''Germany'']"
    by (simp add: small_df_def scaler_row_def)
  then show ?thesis
    by (simp only: countries_def set_sort set_remdups)
qed

text \<open>
  Claim C7, as amended. For every non-empty selection of countries of the dataset, the trend chart
  has exactly one line per selected country, labelled in selection order, and the
  i-th line has the i-th colour of the palette of that length, which is the colour
  number i mod 10 of tab10; the colours of the lines are pairwise distinct when at
  most ten countries are selected.
\<close>

theorem trend_one_line_per_country:
  assumes "selected_countries \<noteq> []"
    and "set selected_countries \<subseteq> set (countries df)"
  shows "\<exists>chart.
     trend_view get_ylim (isin_filter df selected_countries) prefix selected_countries = Inr chart \<and>
     length (tc_lines chart) = length selected_countries \<and>
     map line_label (tc_lines chart) = selected_countries \<and>
     (\<forall>i < length selected_countries.
        line_color (tc_lines chart ! i) = color_palette (length selected_countries) ! i \<and>
        line_color (tc_lines chart ! i) = tab10 ! (i mod 10)) \<and>
     (length selected_countries \<le> 10 \<longrightarrow> distinct (map line_color (tc_lines chart)))"
proof -
  from trend_view_ok [OF assms(2), of get_ylim prefix]
  obtain chart where
    run: "trend_view get_ylim (isin_filter df selected_countries) prefix selected_countries = Inr chart"
    and lab: "map line_label (tc_lines chart) = selected_countries"
    and col: "map line_color (tc_lines chart) = color_palette (length selected_countries)"
    by blast
  from lab have len: "length (tc_lines chart) = length selected_countries"
    by (metis length_map)
  have nth: "\<forall>i < length selected_countries.
        line_color (tc_lines chart ! i) = color_palette (length selected_countries) ! i \<and>
        line_color (tc_lines chart ! i) = tab10 ! (i mod 10)"
  proof (intro allI impI)
    fix i assume i: "i < length selected_countries"
    with len have "line_color (tc_lines chart ! i) = map line_color (tc_lines chart) ! i"
      by simp
    with col i show "line_color (tc_lines chart ! i) = color_palette (length selected_countries) ! i \<and>
        line_color (tc_lines chart ! i) = tab10 ! (i mod 10)"
      by (simp add: nth_color_palette)
  qed
  have dis: "length selected_countries \<le> 10 \<longrightarrow> distinct (map line_color (tc_lines chart))"
    using col by (simp add: distinct_color_palette)
  show ?thesis
    by (intro exI conjI) (rule run, rule len, rule lab, rule nth, rule dis)
qed

theorem trend_one_line_per_country_witness:
  "[''Germany'', ''France''] \<noteq> [] \<and> set [''Germany'', ''France''] \<subseteq> set (countries small_df) \<and>
   (\<exists>chart. trend_view (autoscale_ylim 0.05) (isin_filter small_df [''Germany'', ''France''])
              ''Scaler'' [''Germany'', ''France''] = Inr chart \<and>
      map line_label (tc_lines chart) = [''Germany'', ''France''] \<and>
      map line_color (tc_lines chart) = [Blue, Orange])"
proof -
  have h1: "[''Germany'', ''France''] \<noteq> []" by simp
  have h2: "set [''Germany'', ''France''] \<subseteq> set (countries small_df)"
    by (simp only: countries_small) simp
  from trend_one_line_per_country [OF h1 h2, of "autoscale_ylim 0.05" "''Scaler''"]
  obtain chart where
    run: "trend_view (autoscale_ylim 0.05) (isin_filter small_df [''Germany'', ''France''])
            ''Scaler'' [''Germany'', ''France''] = Inr chart"
    and len: "length (tc_lines chart) = length [''Germany'', ''France'']"
    and lab: "map line_label (tc_lines chart) = [''Germany'', ''France'']"
    and col: "\<forall>i < length [''Germany'', ''France''].
        line_color (tc_lines chart ! i) = color_palette (length [''Germany'', ''France'']) ! i \<and>
        line_color (tc_lines chart ! i) = tab10 ! (i mod 10)"
    by (elim exE conjE) (rule that, assumption+)
  have i0: "0 < length [''Germany'', ''France'']" and i1: "1 < length [''Germany'', ''France'']"
    by simp_all
  have c0: "line_color (tc_lines chart ! 0) = Blue"
    using col [rule_format, OF i0, THEN conjunct2] by (simp add: tab10_def)
  have c1: "line_color (tc_lines chart ! 1) = Orange"
    using col [rule_format, OF i1, THEN conjunct2] by (simp add: tab10_def)
  from len have "length (tc_lines chart) = Suc (Suc 0)" by simp
  then obtain l0 l1 where ls: "tc_lines chart = [l0, l1]"
    by (auto simp: length_Suc_conv)
  with c0 c1 have c: "map line_color (tc_lines chart) = [Blue, Orange]"
    by simp
  have "\<exists>chart. trend_view (autoscale_ylim 0.05) (isin_filter small_df [''Germany'', ''France''])
              ''Scaler'' [''Germany'', ''France''] = Inr chart \<and>
      map line_label (tc_lines chart) = [''Germany'', ''France''] \<and>
      map line_color (tc_lines chart) = [Blue, Orange]"
    by (intro exI conjI) (rule run, rule lab, rule c)
  with h1 h2 show ?thesis by (intro conjI)
qed

text \<open>
  With the eleven countries of the example dataset selected, the first and the eleventh
  line have the same colour.
\<close>

theorem trend_colors_repeat:
  "set eleven_countries \<subseteq> set (countries europe_df) \<and>
   \<not> isl (trend_view (autoscale_ylim 0.05) (isin_filter europe_df eleven_countries) ''Scaler''
            eleven_countries) \<and>
   \<not> distinct (map line_color (tc_lines (projr
        (trend_view (autoscale_ylim 0.05) (isin_filter europe_df eleven_countries) ''Scaler''
            eleven_countries))))"
proof -
  have sub: "set eleven_countries \<subseteq> set (countries europe_df)"
    by (rule eleven_sub)
  from trend_view_ok [OF sub, of "autoscale_ylim 0.05" "''Scaler''"]
  obtain chart where
    run: "trend_view (autoscale_ylim 0.05) (isin_filter europe_df eleven_countries) ''Scaler''
            eleven_countries = Inr chart"
    and col: "map line_color (tc_lines chart) = color_palette (length eleven_countries)"
    by (elim exE conjE) (rule that, assumption+)
  have len: "length eleven_countries = 11" by (simp add: eleven_countries_def)
  have "\<not> distinct (color_palette 11)"
    by (rule palette_eleven_repeats)
  with col len have "\<not> distinct (map line_color (tc_lines chart))"
    by simp
  with run sub show ?thesis by (simp del: set_countries)
qed

lemma germany_trend:
  "trend_view (autoscale_ylim 0.05) (isin_filter small_df [''Germany'']) ''Scaler'' [''Germany'']
     = Inr \<lparr>tc_lines = [\<lparr>line_x = x_years, line_y = [NaN, NaN, NaN, Num 10, Num 15],
                           line_color = Blue, line_label = ''Germany''\<rparr>],
            tc_annotations = [(2022, 10), (2023, 15)],
            tc_ylim = (0, 16.775),
            tc_xticks = x_years,
            tc_legend_ncol = 1\<rparr>"
  by (simp add: trend_view_def x_years_def trend_value_def col_name_scaler cell0_eq small_df_def
      scaler_columns_def scaler_row_def cells_of_def list_get_def color_palette_def tab10_def
      autoscale_ylim_def nonsingular_def finite_values_def)

text \<open>
  One country whose plotted values are 10 and 15: the axes report the upper limit 15.25,
  the script sets 16.775, and 1.1 times the largest plotted value is 16.5.
\<close>

theorem trend_ylim_not_max:
  "\<not> isl (trend_view (autoscale_ylim 0.05) (isin_filter small_df [''Germany'']) ''Scaler'' [''Germany'']) \<and>
   finite_values (map line_y (tc_lines (projr
     (trend_view (autoscale_ylim 0.05) (isin_filter small_df [''Germany'']) ''Scaler'' [''Germany''])))) = [10, 15] \<and>
   snd (tc_ylim (projr
     (trend_view (autoscale_ylim 0.05) (isin_filter small_df [''Germany'']) ''Scaler'' [''Germany''])))
     = 16.775 \<and>
   snd (tc_ylim (projr
     (trend_view (autoscale_ylim 0.05) (isin_filter small_df [''Germany'']) ''Scaler'' [''Germany''])))
     \<noteq> 1.1 * Max (set (finite_values (map line_y (tc_lines (projr
     (trend_view (autoscale_ylim 0.05) (isin_filter small_df [''Germany'']) ''Scaler'' [''Germany'']))))))"
  unfolding germany_trend by (simp add: finite_values_def)

lemma germany_selected:
  "[''Germany''] \<noteq> []" "set [''Germany''] \<subseteq> set (countries small_df)"
  by (simp, simp only: countries_small, simp)

lemma nonsingular_Min_Max:
  assumes "vs \<noteq> []"
  shows "nonsingular vs =
     (if Min (set vs) = Max (set vs)
      then (if Min (set vs) = 0 then (- 0.05, 0.05)
            else (Min (set vs) - 0.05 * \<bar>Min (set vs)\<bar>, Max (set vs) + 0.05 * \<bar>Max (set vs)\<bar>))
      else (Min (set vs), Max (set vs)))"
proof -
  from assms obtain v rest where vs: "vs = v # rest" by (cases vs) auto
  have "fold min rest v = Min (set vs)" "fold max rest v = Max (set vs)"
    unfolding vs by (simp_all only: Min.set_eq_fold Max.set_eq_fold)
  then show ?thesis
    by (simp add: nonsingular_def vs Let_def del: set_simps)
qed

lemma autoscale_regular:
  assumes "finite_values yss \<noteq> []"
    and "Min (set (finite_values yss)) < Max (set (finite_values yss))"
  shows "snd (autoscale_ylim m yss)
           = Max (set (finite_values yss))
             + m * (Max (set (finite_values yss)) - Min (set (finite_values yss)))"
  using assms by (simp add: autoscale_ylim_def nonsingular_Min_Max)

lemma autoscale_single:
  assumes "finite_values yss \<noteq> []"
    and "Min (set (finite_values yss)) = Max (set (finite_values yss))"
    and "Max (set (finite_values yss)) \<noteq> 0"
  shows "snd (autoscale_ylim m yss)
           = Max (set (finite_values yss)) + 0.05 * \<bar>Max (set (finite_values yss))\<bar>
             + m * (0.1 * \<bar>Max (set (finite_values yss))\<bar>)"
  using assms by (simp add: autoscale_ylim_def nonsingular_Min_Max algebra_simps)

text \<open>
  Claim C4, as amended. For every non-empty selection of countries of the dataset, the
  upper bound that the script sets on the y-axis of the trend chart is 1.1 times the
  upper limit that the axes report after the lines are plotted. When the axes scale
  themselves with margin m (0.05 by default), that limit is the largest plotted value
  plus m times the range of the plotted values if at least two different values are
  plotted, and v + 0.05 |v| + m (0.1 |v|) if a single value v other than 0 is plotted.
\<close>

theorem trend_ylim_upper:
  assumes "selected_countries \<noteq> []"
    and "set selected_countries \<subseteq> set (countries df)"
  shows "(\<exists>chart.
      trend_view get_ylim (isin_filter df selected_countries) prefix selected_countries = Inr chart \<and>
      snd (tc_ylim chart) = 1.1 * snd (get_ylim (map line_y (tc_lines chart)))) \<and>
    (\<exists>chart.
      trend_view (autoscale_ylim m) (isin_filter df selected_countries) prefix selected_countries
        = Inr chart \<and>
      (plotted_values chart \<noteq> [] \<and>
       Min (set (plotted_values chart)) < Max (set (plotted_values chart)) \<longrightarrow>
         snd (tc_ylim chart)
           = 1.1 * (Max (set (plotted_values chart))
                    + m * (Max (set (plotted_values chart)) - Min (set (plotted_values chart))))) \<and>
      (plotted_values chart \<noteq> [] \<and>
       Min (set (plotted_values chart)) = Max (set (plotted_values chart)) \<and>
       Max (set (plotted_values chart)) \<noteq> 0 \<longrightarrow>
         snd (tc_ylim chart)
           = 1.1 * (Max (set (plotted_values chart)) + 0.05 * \<bar>Max (set (plotted_values chart))\<bar>
                    + m * (0.1 * \<bar>Max (set (plotted_values chart))\<bar>))))"
proof -
  have gen: "\<exists>chart.
      trend_view g (isin_filter df selected_countries) prefix selected_countries = Inr chart \<and>
      snd (tc_ylim chart) = 1.1 * snd (g (map line_y (tc_lines chart)))" for g
  proof -
    from trend_view_ok [OF assms(2), of g prefix]
    obtain chart where
      run: "trend_view g (isin_filter df selected_countries) prefix selected_countries = Inr chart"
      and lim: "tc_ylim chart = (0, snd (g (map line_y (tc_lines chart))) * 1.1)"
      by (elim exE conjE) (rule that, assumption+)
    from lim have "snd (tc_ylim chart) = 1.1 * snd (g (map line_y (tc_lines chart)))"
      by simp
    with run show ?thesis by (intro exI conjI)
  qed
  from gen [of "autoscale_ylim m"] obtain chart where
    run: "trend_view (autoscale_ylim m) (isin_filter df selected_countries) prefix selected_countries
            = Inr chart"
    and up: "snd (tc_ylim chart) = 1.1 * snd (autoscale_ylim m (map line_y (tc_lines chart)))"
    by (elim exE conjE) (rule that, assumption+)
  have reg: "plotted_values chart \<noteq> [] \<and>
       Min (set (plotted_values chart)) < Max (set (plotted_values chart)) \<longrightarrow>
         snd (tc_ylim chart)
           = 1.1 * (Max (set (plotted_values chart))
                    + m * (Max (set (plotted_values chart)) - Min (set (plotted_values chart))))"
  proof (intro impI)
    assume a: "plotted_values chart \<noteq> [] \<and>
       Min (set (plotted_values chart)) < Max (set (plotted_values chart))"
    then have "snd (autoscale_ylim m (map line_y (tc_lines chart)))
        = Max (set (plotted_values chart))
          + m * (Max (set (plotted_values chart)) - Min (set (plotted_values chart)))"
      unfolding plotted_values_def by (intro autoscale_regular) simp_all
    with up show "snd (tc_ylim chart)
           = 1.1 * (Max (set (plotted_values chart))
                    + m * (Max (set (plotted_values chart)) - Min (set (plotted_values chart))))"
      by simp
  qed
  have sing: "plotted_values chart \<noteq> [] \<and>
       Min (set (plotted_values chart)) = Max (set (plotted_values chart)) \<and>
       Max (set (plotted_values chart)) \<noteq> 0 \<longrightarrow>
         snd (tc_ylim chart)
           = 1.1 * (Max (set (plotted_values chart)) + 0.05 * \<bar>Max (set (plotted_values chart))\<bar>
                    + m * (0.1 * \<bar>Max (set (plotted_values chart))\<bar>))"
  proof (intro impI)
    assume a: "plotted_values chart \<noteq> [] \<and>
       Min (set (plotted_values chart)) = Max (set (plotted_values chart)) \<and>
       Max (set (plotted_values chart)) \<noteq> 0"
    then have "snd (autoscale_ylim m (map line_y (tc_lines chart)))
        = Max (set (plotted_values chart)) + 0.05 * \<bar>Max (set (plotted_values chart))\<bar>
          + m * (0.1 * \<bar>Max (set (plotted_values chart))\<bar>)"
      unfolding plotted_values_def by (intro autoscale_single) simp_all
    with up show "snd (tc_ylim chart)
           = 1.1 * (Max (set (plotted_values chart)) + 0.05 * \<bar>Max (set (plotted_values chart))\<bar>
                    + m * (0.1 * \<bar>Max (set (plotted_values chart))\<bar>))"
      by simp
  qed
  have second: "\<exists>chart.
      trend_view (autoscale_ylim m) (isin_filter df selected_countries) prefix selected_countries
        = Inr chart \<and>
      (plotted_values chart \<noteq> [] \<and>
       Min (set (plotted_values chart)) < Max (set (plotted_values chart)) \<longrightarrow>
         snd (tc_ylim chart)
           = 1.1 * (Max (set (plotted_values chart))
                    + m * (Max (set (plotted_values chart)) - Min (set (plotted_values chart))))) \<and>
      (plotted_values chart \<noteq> [] \<and>
       Min (set (plotted_values chart)) = Max (set (plotted_values chart)) \<and>
       Max (set (plotted_values chart)) \<noteq> 0 \<longrightarrow>
         snd (tc_ylim chart)
           = 1.1 * (Max (set (plotted_values chart)) + 0.05 * \<bar>Max (set (plotted_values chart))\<bar>
                    + m * (0.1 * \<bar>Max (set (plotted_values chart))\<bar>)))"
    by (intro exI conjI) (rule run, rule reg, rule sing)
  from gen [of get_ylim] second show ?thesis by (intro conjI)
qed

theorem trend_ylim_upper_witness:
  "[''Germany''] \<noteq> [] \<and> set [''Germany''] \<subseteq> set (countries small_df) \<and>
   (\<exists>chart.
     trend_view (autoscale_ylim 0.05) (isin_filter small_df [''Germany'']) ''Scaler'' [''Germany'']
       = Inr chart \<and>
     plotted_values chart = [10, 15] \<and>
     snd (tc_ylim chart) = 1.1 * (15 + 0.05 * (15 - 10)) \<and>
     snd (tc_ylim chart) = 16.775)"
proof -
  note t = trend_ylim_upper [OF germany_selected, of "autoscale_ylim 0.05" "''Scaler''" "0.05",
      THEN conjunct2]
  from t obtain chart where
    run: "trend_view (autoscale_ylim 0.05) (isin_filter small_df [''Germany'']) ''Scaler'' [''Germany'']
       = Inr chart"
    and reg: "plotted_values chart \<noteq> [] \<and>
       Min (set (plotted_values chart)) < Max (set (plotted_values chart)) \<longrightarrow>
         snd (tc_ylim chart)
           = 1.1 * (Max (set (plotted_values chart))
                    + 0.05 * (Max (set (plotted_values chart)) - Min (set (plotted_values chart))))"
    by (elim exE conjE) (rule that, assumption+)
  from run have pv: "plotted_values chart = [10, 15]"
    unfolding germany_trend by (auto simp: plotted_values_def finite_values_def)
  from reg have b: "snd (tc_ylim chart) = 1.1 * (15 + 0.05 * (15 - 10))"
    unfolding pv by simp
  then have c: "snd (tc_ylim chart) = 16.775" by simp
  have "\<exists>chart.
     trend_view (autoscale_ylim 0.05) (isin_filter small_df [''Germany'']) ''Scaler'' [''Germany'']
       = Inr chart \<and>
     plotted_values chart = [10, 15] \<and>
     snd (tc_ylim chart) = 1.1 * (15 + 0.05 * (15 - 10)) \<and>
     snd (tc_ylim chart) = 16.775"
    by (intro exI conjI) (rule run, rule pv, rule b, rule c)
  with germany_selected show ?thesis by (intro conjI)
qed



subsection \<open>The comparison view as a whole\<close>

lemma isnan_max_from: "isnan (max_from m vs) \<longleftrightarrow> isnan m"
proof (induction vs arbitrary: m)
  case Nil
  then show ?case by simp
next
  case (Cons v vs)
  have "isnan (if fgt v m then v else m) \<longleftrightarrow> isnan m"
    by (cases v; cases m) (simp_all add: fgt_def)
  with Cons.IH show ?case by simp
qed

lemma set_xlim_eq: "set_xlim l r = (if isnan r then Inl ValueError else Inr (l, case r of Num x \<Rightarrow> x | NaN \<Rightarrow> 0))"
  by (cases r) (simp_all add: set_xlim_def)

lemma isnan_fmul [simp]: "isnan (fmul v c) \<longleftrightarrow> isnan v"
  by (cases v) simp_all

lemma comparison_loop_survivors:
  "comparison_loop fd prefix sel [] s = (Inr (survivors fd prefix sel), with_warnings fd prefix sel s)"
  by (simp only: comparison_loop_eq append_Nil survivors_def with_warnings_def)

lemma survivors_Nil_iff:
  "survivors fd prefix sel = [] \<longleftrightarrow> filter (lookups_succeed fd prefix) sel = []"
  by (simp add: survivors_def)

lemma comparison_view_few:
  "length sel \<le> 1 \<Longrightarrow>
     comparison_view fd prefix sel s
       = (None, st_write (Info ''Select at least two countries to view comparison.'') s)"
  by (simp add: comparison_view_def)

lemma comparison_view_none:
  "1 < length sel \<Longrightarrow> survivors fd prefix sel = [] \<Longrightarrow>
     comparison_view fd prefix sel s
       = (None, st_write (Warning ''Insufficient data for comparison in 2023.'')
                  (with_warnings fd prefix sel s))"
  by (simp add: comparison_view_def comparison_loop_survivors)

lemma comparison_view_some:
  assumes "1 < length sel" and "survivors fd prefix sel \<noteq> []"
  shows "comparison_view fd prefix sel s =
     (if isnan (hd (snd (comparison_bars (survivors fd prefix sel))))
      then (Some ValueError, with_warnings fd prefix sel s)
      else (None, st_write (PyplotComparison
              \<lparr>cc_countries = fst (comparison_bars (survivors fd prefix sel)),
               cc_percentages = snd (comparison_bars (survivors fd prefix sel)),
               cc_colors = color_palette (length (fst (comparison_bars (survivors fd prefix sel)))),
               cc_xlim = (0, case fmul (max_from (hd (snd (comparison_bars (survivors fd prefix sel))))
                                 (tl (snd (comparison_bars (survivors fd prefix sel))))) 1.2 of
                              Num x \<Rightarrow> x | NaN \<Rightarrow> 0)\<rparr>)
            (with_warnings fd prefix sel s)))"
proof -
  obtain cs ps where bars: "comparison_bars (survivors fd prefix sel) = (cs, ps)"
    by (cases "comparison_bars (survivors fd prefix sel)")
  have "length ps = length (survivors fd prefix sel)"
    using bars by (auto simp: comparison_bars_def sorted_latest_def length_sorted_reverse)
  with assms(2) obtain p ps' where ps: "ps = p # ps'"
    by (cases ps) auto
  show ?thesis
    using assms bars ps
    by (simp add: comparison_view_def comparison_loop_survivors py_max_def set_xlim_eq
        isnan_max_from)
qed

lemma dataset_with_warnings [simp]: "dataset (with_warnings fd prefix sel s) = dataset s"
  by (simp add: with_warnings_def)

lemma dataset_st_write [simp]: "dataset (st_write ev s) = dataset s"
  by (simp add: st_write_def)

lemma dataset_comparison_view:
  "dataset (snd (comparison_view fd prefix sel s)) = dataset s"
proof (cases "1 < length sel")
  case False
  then show ?thesis by (simp add: comparison_view_few)
next
  case True
  show ?thesis
  proof (cases "survivors fd prefix sel = []")
    case True
    with \<open>1 < length sel\<close> show ?thesis by (simp add: comparison_view_none)
  next
    case False
    with \<open>1 < length sel\<close> show ?thesis by (simp add: comparison_view_some)
  qed
qed

lemma ui_comparison_view:
  "\<exists>evs. ui (snd (comparison_view fd prefix sel s)) = ui s @ evs"
proof (cases "1 < length sel")
  case False
  then show ?thesis by (simp add: comparison_view_few st_write_def)
next
  case True
  show ?thesis
  proof (cases "survivors fd prefix sel = []")
    case True
    with \<open>1 < length sel\<close> show ?thesis
      by (simp add: comparison_view_none st_write_def with_warnings_def)
  next
    case False
    with \<open>1 < length sel\<close> show ?thesis
      by (simp add: comparison_view_some st_write_def with_warnings_def)
  qed
qed

text \<open>
  Claim C9. A render pass leaves the loaded dataset as it was: whatever the widgets
  return and however the pass ends, the dataset held by the state after \<^verbatim>\<open>main\<close> is the
  dataset held before, and the page only grows.
\<close>

theorem main_keeps_dataset:
  "dataset (snd (main get_ylim selected_display selected_countries s)) = dataset s \<and>
   load_data (snd (main get_ylim selected_display selected_countries s)) = load_data s \<and>
   (\<exists>evs. ui (snd (main get_ylim selected_display selected_countries s)) = ui s @ evs)"
proof -
  have d: "dataset (snd (main get_ylim selected_display selected_countries s)) = dataset s"
    by (simp add: main_def Let_def dataset_comparison_view split: sum.splits)
  have u: "\<exists>evs. ui (snd (main get_ylim selected_display selected_countries s)) = ui s @ evs"
  proof (cases "selected_metrics selected_display")
    case (Inl e)
    then show ?thesis by (simp add: main_def)
  next
    case (Inr prefix)
    show ?thesis
    proof (cases "selected_countries = []")
      case True
      with Inr show ?thesis by (simp add: main_def Let_def st_write_def)
    next
      case False
      show ?thesis
      proof (cases "trend_view get_ylim (isin_filter (load_data s) selected_countries) prefix
                      selected_countries")
        case (Inl e)
        with Inr False show ?thesis by (simp add: main_def Let_def)
      next
        case (Inr chart)
        from ui_comparison_view
          [of "isin_filter (load_data s) selected_countries" prefix selected_countries
              "st_write (PyplotTrend chart) s"]
        obtain evs where
          "ui (snd (comparison_view (isin_filter (load_data s) selected_countries) prefix
                 selected_countries (st_write (PyplotTrend chart) s)))
             = ui (st_write (PyplotTrend chart) s) @ evs"
          by blast
        with \<open>selected_metrics selected_display = Inr prefix\<close> False Inr show ?thesis
          by (simp add: main_def Let_def st_write_def)
      qed
    qed
  qed
  from d u show ?thesis by (simp add: load_data_def)
qed

theorem main_keeps_dataset_witness:
  "dataset (snd (main (autoscale_ylim 0.05) ''Scaler: Companies with 10%+ growth''
       [''Germany'', ''France''] \<lparr>dataset = small_df, ui = []\<rparr>)) = small_df"
  using main_keeps_dataset
    [of "autoscale_ylim 0.05" "''Scaler: Companies with 10%+ growth''" "[''Germany'', ''France'']"
        "\<lparr>dataset = small_df, ui = []\<rparr>"]
  by (elim conjE) simp

lemma comparison_view_chart_iff:
  "(\<exists>ch. PyplotComparison ch \<in> set (ui (snd (comparison_view fd prefix sel \<lparr>dataset = d, ui = []\<rparr>))))
     \<longleftrightarrow> 1 < length sel \<and> survivors fd prefix sel \<noteq> [] \<and>
          \<not> isnan (hd (snd (comparison_bars (survivors fd prefix sel))))"
proof (cases "1 < length sel")
  case False
  then show ?thesis by (simp add: comparison_view_few st_write_def)
next
  case True
  show ?thesis
  proof (cases "survivors fd prefix sel = []")
    case True
    with \<open>1 < length sel\<close> show ?thesis
      by (auto simp: comparison_view_none st_write_def with_warnings_def)
  next
    case False
    with \<open>1 < length sel\<close> show ?thesis
      by (auto simp: comparison_view_some st_write_def with_warnings_def)
  qed
qed

lemma Country_in_isin:
  "c \<in> row_Country ` set (rows (isin_filter df sel)) \<longleftrightarrow>
     c \<in> set sel \<and> c \<in> set (map row_Country (rows df))"
  by auto

lemma europe_lookups:
  "lookups_succeed (isin_filter europe_df sel) ''Scaler'' c \<longleftrightarrow>
     c \<in> set sel \<and> c \<in> set eleven_countries"
proof -
  have "col_name ''Scaler'' latest_year ''%'' \<in> set (columns europe_df)"
    "col_name ''Scaler'' latest_year ''Num'' \<in> set (columns europe_df)"
    "col_name ''Scaler'' latest_year ''Obs'' \<in> set (columns europe_df)"
    by (simp_all add: latest_year_def col_name_scaler europe_df_def scaler_columns_def)
  then show ?thesis
    by (simp only: lookups_succeed_iff Country_in_isin columns_isin_filter map_Country_europe)
      simp
qed

lemma belgium_croatia_entries:
  "survivors (isin_filter europe_df [''Belgium'', ''Croatia'']) ''Scaler'' [''Belgium'', ''Croatia'']
     = [\<lparr>Country = ''Belgium'', Percentage = NaN, Number = Num 3, Total = Num 100\<rparr>,
        \<lparr>Country = ''Croatia'', Percentage = Num 2, Number = Num 2, Total = Num 100\<rparr>]"
proof -
  have "filter (lookups_succeed (isin_filter europe_df [''Belgium'', ''Croatia'']) ''Scaler'')
          [''Belgium'', ''Croatia''] = [''Belgium'', ''Croatia'']"
    by (simp add: europe_lookups eleven_countries_def)
  moreover have "entry_of (isin_filter europe_df [''Belgium'', ''Croatia'']) ''Scaler'' ''Belgium''
      = \<lparr>Country = ''Belgium'', Percentage = NaN, Number = Num 3, Total = Num 100\<rparr>"
    by (simp add: entry_of_def comparison_entry_def cell0_eq latest_year_def col_name_scaler
        europe_df_def scaler_columns_def scaler_row_def cells_of_def)
  moreover have "entry_of (isin_filter europe_df [''Belgium'', ''Croatia'']) ''Scaler'' ''Croatia''
      = \<lparr>Country = ''Croatia'', Percentage = Num 2, Number = Num 2, Total = Num 100\<rparr>"
    by (simp add: entry_of_def comparison_entry_def cell0_eq latest_year_def col_name_scaler
        europe_df_def scaler_columns_def scaler_row_def cells_of_def)
  ultimately show ?thesis
    by (simp add: survivors_def)
qed

lemma belgium_croatia_bars:
  "comparison_bars
     [\<lparr>Country = ''Belgium'', Percentage = NaN, Number = Num 3, Total = Num 100\<rparr>,
      \<lparr>Country = ''Croatia'', Percentage = Num 2, Number = Num 2, Total = Num 100\<rparr>]
     = ([''Belgium'', ''Croatia''], [NaN, Num 2])"
  by (simp add: comparison_bars_def sorted_latest_def sorted_reverse_def list_sort_def
      count_run_def)

text \<open>
  Claim C5 at a failing input. Belgium and Croatia are selected; both pass the three
  lookups, Belgium with an empty 2023 percentage cell. The sorted list starts with
  Belgium, \<^verbatim>\<open>max\<close> returns NaN, \<^verbatim>\<open>ax.set_xlim\<close> raises ValueError, and the pass ends
  without a chart, a warning or an information message.
\<close>

theorem comparison_nan_first_raises:
  "1 < length [''Belgium'', ''Croatia''] \<and>
   map Country (survivors (isin_filter europe_df [''Belgium'', ''Croatia'']) ''Scaler''
      [''Belgium'', ''Croatia'']) = [''Belgium'', ''Croatia''] \<and>
   comparison_view (isin_filter europe_df [''Belgium'', ''Croatia'']) ''Scaler''
      [''Belgium'', ''Croatia''] \<lparr>dataset = europe_df, ui = []\<rparr>
     = (Some ValueError, \<lparr>dataset = europe_df, ui = []\<rparr>)"
proof -
  let ?fd = "isin_filter europe_df [''Belgium'', ''Croatia'']"
  let ?sel = "[''Belgium'', ''Croatia'']"
  have l: "1 < length ?sel" by simp
  have ne: "survivors ?fd ''Scaler'' ?sel \<noteq> []"
    by (simp only: belgium_croatia_entries) simp
  have w: "with_warnings ?fd ''Scaler'' ?sel \<lparr>dataset = europe_df, ui = []\<rparr>
             = \<lparr>dataset = europe_df, ui = []\<rparr>"
    by (simp add: with_warnings_def europe_lookups eleven_countries_def)
  have v: "comparison_view ?fd ''Scaler'' ?sel \<lparr>dataset = europe_df, ui = []\<rparr>
     = (Some ValueError, \<lparr>dataset = europe_df, ui = []\<rparr>)"
    by (simp only: comparison_view_some [OF l ne] belgium_croatia_entries belgium_croatia_bars w)
      simp
  have m: "map Country (survivors ?fd ''Scaler'' ?sel) = ?sel"
    by (simp only: belgium_croatia_entries) simp
  from l m v show ?thesis by (intro conjI)
qed

subsection \<open>The sort on keys without NaN\<close>

lemma flt_num: "a \<noteq> NaN \<Longrightarrow> b \<noteq> NaN \<Longrightarrow> flt a b \<longleftrightarrow> num a < num b"
  by (cases a; cases b) (simp_all add: num_def)

lemma bisect_spec:
  "sorted (map (\<lambda>x. num (key x)) ys) \<Longrightarrow> \<forall>x \<in> set ys. key x \<noteq> NaN \<Longrightarrow> key p \<noteq> NaN \<Longrightarrow>
   l \<le> r \<Longrightarrow> r \<le> length ys \<Longrightarrow>
   (\<forall>i < l. num (key (ys ! i)) \<le> num (key p)) \<Longrightarrow>
   (\<forall>i. r \<le> i \<and> i < length ys \<longrightarrow> num (key p) < num (key (ys ! i))) \<Longrightarrow>
   bisect key p ys l r \<le> length ys \<and>
   (\<forall>i < bisect key p ys l r. num (key (ys ! i)) \<le> num (key p)) \<and>
   (\<forall>i. bisect key p ys l r \<le> i \<and> i < length ys \<longrightarrow> num (key p) < num (key (ys ! i)))"
proof (induction key p ys l r rule: bisect.induct)
  case (1 key pivot ys l r)
  note srt = "1.prems"(1) and nn = "1.prems"(2) and nnp = "1.prems"(3)
    and lr = "1.prems"(4) and rlen = "1.prems"(5) and low = "1.prems"(6) and up = "1.prems"(7)
  show ?case
  proof (cases "l < r")
    case False
    with lr have "l = r" by simp
    moreover have "bisect key pivot ys l r = l"
      using False by (simp add: bisect.simps [of key pivot ys l r])
    ultimately show ?thesis
      using rlen low up by simp
  next
    case True
    define m where "m = l + (r - l) div 2"
    from True have m: "l \<le> m" "m < r" by (simp_all add: m_def)
    with rlen have mlen: "m < length ys" by simp
    have mono: "i \<le> j \<Longrightarrow> j < length ys \<Longrightarrow> num (key (ys ! i)) \<le> num (key (ys ! j))" for i j
      using srt by (simp add: sorted_iff_nth_mono)
    from mlen nn have nnm: "key (ys ! m) \<noteq> NaN" by simp
    show ?thesis
    proof (cases "flt (key pivot) (key (ys ! m))")
      case lt: True
      then have less: "num (key pivot) < num (key (ys ! m))"
        using nnm nnp by (simp add: flt_num)
      have step: "bisect key pivot ys l r = bisect key pivot ys l m"
        using True lt by (simp add: bisect.simps [of key pivot ys l r] m_def Let_def)
      have up': "\<forall>i. m \<le> i \<and> i < length ys \<longrightarrow> num (key pivot) < num (key (ys ! i))"
      proof (intro allI impI)
        fix i assume "m \<le> i \<and> i < length ys"
        with mono have "num (key (ys ! m)) \<le> num (key (ys ! i))" by blast
        with less show "num (key pivot) < num (key (ys ! i))" by simp
      qed
      from m mlen have "l \<le> m" "m \<le> length ys" by simp_all
      from "1.IH"(1) [OF True m_def lt srt nn nnp this low up'] show ?thesis
        unfolding step .
    next
      case ge: False
      then have le: "num (key (ys ! m)) \<le> num (key pivot)"
        using nnm nnp by (simp add: flt_num)
      have step: "bisect key pivot ys l r = bisect key pivot ys (m + 1) r"
        using True ge by (simp add: bisect.simps [of key pivot ys l r] m_def Let_def)
      have low': "\<forall>i < m + 1. num (key (ys ! i)) \<le> num (key pivot)"
      proof (intro allI impI)
        fix i assume "i < m + 1"
        then have "i \<le> m" by simp
        with mono mlen have "num (key (ys ! i)) \<le> num (key (ys ! m))" by blast
        with le show "num (key (ys ! i)) \<le> num (key pivot)" by simp
      qed
      from m have "m + 1 \<le> r" by simp
      from "1.IH"(2) [OF True m_def ge srt nn nnp this rlen low' up] show ?thesis
        unfolding step .
    qed
  qed
qed

lemma insert_at_sorted:
  assumes "sorted (map f ys)" and "k \<le> length ys"
    and low: "\<forall>i < k. f (ys ! i) \<le> (f p :: real)"
    and up: "\<forall>i. k \<le> i \<and> i < length ys \<longrightarrow> f p < f (ys ! i)"
  shows "sorted (map f (take k ys @ p # drop k ys))"
proof -
  have t: "sorted (map f (take k ys))"
    using assms(1) by (simp add: take_map [symmetric] sorted_wrt_take)
  have d: "sorted (map f (drop k ys))"
    using assms(1) by (simp add: drop_map [symmetric] sorted_wrt_drop)
  have lo: "\<forall>x \<in> set (take k ys). f x \<le> f p"
    using low assms(2) by (auto simp: in_set_conv_nth)
  have hi: "\<forall>x \<in> set (drop k ys). f p < f x"
    using up by (auto simp: in_set_conv_nth)
  from t d lo hi show ?thesis
    by (fastforce simp: sorted_append)
qed

lemma insert_at_filter:
  assumes up: "\<forall>i. k \<le> i \<and> i < length ys \<longrightarrow> f p < (f (ys ! i) :: real)"
  shows "filter (\<lambda>x. f x = c) (take k ys @ p # drop k ys)
           = filter (\<lambda>x. f x = c) ys @ (if f p = c then [p] else [])"
proof -
  have hi: "\<forall>x \<in> set (drop k ys). f p < f x"
    using up by (auto simp: in_set_conv_nth)
  have split: "filter (\<lambda>x. f x = c) ys
                 = filter (\<lambda>x. f x = c) (take k ys) @ filter (\<lambda>x. f x = c) (drop k ys)"
    by (metis append_take_drop_id filter_append)
  show ?thesis
  proof (cases "f p = c")
    case True
    with hi have "filter (\<lambda>x. f x = c) (drop k ys) = []"
      by (auto simp: filter_empty_conv)
    with True split show ?thesis by simp
  next
    case False
    with split show ?thesis by simp
  qed
qed

lemma binarysort_spec:
  "sorted (map (\<lambda>x. num (key x)) ys) \<Longrightarrow> \<forall>x \<in> set ys \<union> set rest. key x \<noteq> NaN \<Longrightarrow>
   sorted (map (\<lambda>x. num (key x)) (binarysort key ys rest)) \<and>
   (\<forall>c. filter (\<lambda>x. num (key x) = c) (binarysort key ys rest)
          = filter (\<lambda>x. num (key x) = c) (ys @ rest))"
proof (induction rest arbitrary: ys)
  case Nil
  then show ?case by simp
next
  case (Cons p rest)
  define k where "k = bisect key p ys 0 (length ys)"
  from Cons.prems have nn: "\<forall>x \<in> set ys. key x \<noteq> NaN" and nnp: "key p \<noteq> NaN"
    by simp_all
  have "0 \<le> length ys" "length ys \<le> length ys"
    "\<forall>i < 0. num (key (ys ! i)) \<le> num (key p)"
    "\<forall>i. length ys \<le> i \<and> i < length ys \<longrightarrow> num (key p) < num (key (ys ! i))"
    by simp_all
  from bisect_spec [OF Cons.prems(1) nn nnp this]
  have k: "k \<le> length ys" "\<forall>i < k. num (key (ys ! i)) \<le> num (key p)"
    "\<forall>i. k \<le> i \<and> i < length ys \<longrightarrow> num (key p) < num (key (ys ! i))"
    unfolding k_def by blast+
  let ?ys' = "take k ys @ p # drop k ys"
  have s': "sorted (map (\<lambda>x. num (key x)) ?ys')"
    using Cons.prems(1) k by (rule insert_at_sorted)
  have f': "filter (\<lambda>x. num (key x) = c) ?ys'
              = filter (\<lambda>x. num (key x) = c) ys @ (if num (key p) = c then [p] else [])" for c
    using k(3) by (rule insert_at_filter)
  have "set ?ys' \<subseteq> set ys \<union> {p}"
    using set_take_subset [of k ys] set_drop_subset [of k ys] by auto
  with Cons.prems(2) have nn': "\<forall>x \<in> set ?ys' \<union> set rest. key x \<noteq> NaN"
    by auto
  have run: "binarysort key ys (p # rest) = binarysort key ?ys' rest"
    by (simp add: k_def Let_def)
  have g: "filter (\<lambda>x. num (key x) = c) (?ys' @ rest)
             = filter (\<lambda>x. num (key x) = c) (ys @ p # rest)" for c
  proof -
    have "filter (\<lambda>x. num (key x) = c) (?ys' @ rest)
            = filter (\<lambda>x. num (key x) = c) ?ys' @ filter (\<lambda>x. num (key x) = c) rest"
      by (rule filter_append)
    also have "\<dots> = (filter (\<lambda>x. num (key x) = c) ys @ (if num (key p) = c then [p] else []))
                        @ filter (\<lambda>x. num (key x) = c) rest"
      by (simp only: f')
    also have "\<dots> = filter (\<lambda>x. num (key x) = c) (ys @ p # rest)"
      by simp
    finally show ?thesis .
  qed
  from Cons.IH [OF s' nn'] have
    a: "sorted (map (\<lambda>x. num (key x)) (binarysort key ?ys' rest))"
    and b: "\<forall>c. filter (\<lambda>x. num (key x) = c) (binarysort key ?ys' rest)
               = filter (\<lambda>x. num (key x) = c) (?ys' @ rest)"
    by blast+
  from a b show ?case
    unfolding run by (simp only: g) simp
qed

lemma asc_run_sorted:
  "\<forall>x \<in> set (x0 # xs). key x \<noteq> NaN \<Longrightarrow>
   sorted (map (\<lambda>x. num (key x)) (take (Suc (count_asc (key x0) (map key xs))) (x0 # xs)))"
proof (induction xs arbitrary: x0)
  case Nil
  then show ?case by simp
next
  case (Cons x1 xs)
  show ?case
  proof (cases "flt (key x1) (key x0)")
    case True
    then show ?thesis by simp
  next
    case False
    with Cons.prems have le: "num (key x0) \<le> num (key x1)"
      by (simp add: flt_num)
    from Cons.prems have "\<forall>x \<in> set (x1 # xs). key x \<noteq> NaN" by simp
    from Cons.IH [OF this] le False show ?thesis by fastforce
  qed
qed

lemma desc_run_sorted:
  "\<forall>x \<in> set (x0 # xs). key x \<noteq> NaN \<Longrightarrow>
   sorted_wrt (\<lambda>a b. num (key b) < num (key a))
     (take (Suc (count_desc (key x0) (map key xs))) (x0 # xs))"
proof (induction xs arbitrary: x0)
  case Nil
  then show ?case by simp
next
  case (Cons x1 xs)
  show ?case
  proof (cases "flt (key x1) (key x0)")
    case False
    then show ?thesis by simp
  next
    case True
    with Cons.prems have lt: "num (key x1) < num (key x0)"
      by (simp add: flt_num)
    from Cons.prems have "\<forall>x \<in> set (x1 # xs). key x \<noteq> NaN" by simp
    from Cons.IH [OF this] lt True show ?thesis
      by fastforce
  qed
qed

lemma desc_rev_sorted:
  "sorted_wrt (\<lambda>a b. f b < (f a :: real)) zs \<Longrightarrow> sorted (map f (rev zs))"
proof -
  assume "sorted_wrt (\<lambda>a b. f b < f a) zs"
  then have "sorted_wrt (\<lambda>a b. f b \<le> f a) zs"
    by (rule sorted_wrt_mono_rel [rotated]) simp
  then show ?thesis
    by (simp add: sorted_wrt_map sorted_wrt_rev rev_map)
qed

lemma desc_rev_filter:
  "sorted_wrt (\<lambda>a b. f b < (f a :: real)) zs \<Longrightarrow>
   filter (\<lambda>x. f x = c) (rev zs) = filter (\<lambda>x. f x = c) zs"
proof (induction zs)
  case Nil
  then show ?case by simp
next
  case (Cons z zs)
  then have ih: "filter (\<lambda>x. f x = c) (rev zs) = filter (\<lambda>x. f x = c) zs"
    and below: "\<forall>x \<in> set zs. f x < f z"
    by simp_all
  show ?case
  proof (cases "f z = c")
    case True
    with below have "filter (\<lambda>x. f x = c) zs = []"
      by (auto simp: filter_empty_conv)
    with ih True show ?thesis by simp
  next
    case False
    with ih show ?thesis by simp
  qed
qed

lemma count_run_Cons:
  "count_run (map key (x0 # x1 # xs)) =
     (if flt (key x1) (key x0) then (Suc (count_desc (key x0) (map key (x1 # xs))), True)
      else (Suc (count_asc (key x0) (map key (x1 # xs))), False))"
  by (simp add: count_run_def)

lemma split_filter:
  "filter P (take n xs) @ filter P (drop n xs) = filter P xs"
  by (metis append_take_drop_id filter_append)

lemma list_sort_spec:
  assumes nn: "\<forall>x \<in> set xs. key x \<noteq> NaN"
  shows "sorted (map (\<lambda>x. num (key x)) (list_sort key xs)) \<and>
         (\<forall>c. filter (\<lambda>x. num (key x) = c) (list_sort key xs) = filter (\<lambda>x. num (key x) = c) xs)"
proof (cases xs)
  case Nil
  then show ?thesis by (simp add: list_sort_def)
next
  case (Cons x0 xs')
  show ?thesis
  proof (cases xs')
    case Nil
    with Cons show ?thesis by (simp add: list_sort_def)
  next
    case (Cons x1 xs'')
    with \<open>xs = x0 # xs'\<close> have xs: "xs = x0 # x1 # xs''" by simp
    let ?f = "\<lambda>x. num (key x)"
    obtain n d where cr: "count_run (map key xs) = (n, d)"
      by (cases "count_run (map key xs)")
    define run where "run = (if d then rev (take n xs) else take n xs)"
    have ls: "list_sort key xs = binarysort key run (drop n xs)"
      using xs cr by (simp add: list_sort_def run_def)
    from nn xs have nn0: "\<forall>x \<in> set (x0 # x1 # xs''). key x \<noteq> NaN" by simp
    have run_ok: "sorted (map ?f run) \<and> (\<forall>c. filter (\<lambda>x. ?f x = c) run = filter (\<lambda>x. ?f x = c) (take n xs))"
    proof (cases "flt (key x1) (key x0)")
      case True
      have "count_run (map key xs) = (Suc (count_desc (key x0) (map key (x1 # xs''))), True)"
        unfolding xs using True by (simp only: count_run_Cons if_True)
      with cr have n: "n = Suc (count_desc (key x0) (map key (x1 # xs'')))" and d: "d"
        by simp_all
      from desc_run_sorted [OF nn0]
      have "sorted_wrt (\<lambda>a b. ?f b < ?f a) (take n xs)"
        unfolding n xs .
      with d show ?thesis
        by (simp add: run_def desc_rev_sorted desc_rev_filter)
    next
      case False
      have "count_run (map key xs) = (Suc (count_asc (key x0) (map key (x1 # xs''))), False)"
        unfolding xs using False by (simp only: count_run_Cons if_False)
      with cr have n: "n = Suc (count_asc (key x0) (map key (x1 # xs'')))" and d: "\<not> d"
        by simp_all
      from asc_run_sorted [OF nn0]
      have "sorted (map ?f (take n xs))"
        unfolding n xs .
      with d show ?thesis
        by (simp add: run_def)
    qed
    have "set run \<subseteq> set xs"
      using set_take_subset [of n xs] by (auto simp: run_def)
    moreover have "set (drop n xs) \<subseteq> set xs"
      by (rule set_drop_subset)
    ultimately have nn': "\<forall>x \<in> set run \<union> set (drop n xs). key x \<noteq> NaN"
      using nn by auto
    from run_ok have srt: "sorted (map ?f run)" by blast
    from binarysort_spec [OF srt nn'] have
      a: "sorted (map ?f (binarysort key run (drop n xs)))"
      and b: "\<forall>c. filter (\<lambda>x. ?f x = c) (binarysort key run (drop n xs))
                 = filter (\<lambda>x. ?f x = c) (run @ drop n xs)"
      by blast+
    have "filter (\<lambda>x. ?f x = c) (run @ drop n xs) = filter (\<lambda>x. ?f x = c) xs" for c
    proof -
      have "filter (\<lambda>x. ?f x = c) (run @ drop n xs)
              = filter (\<lambda>x. ?f x = c) (take n xs) @ filter (\<lambda>x. ?f x = c) (drop n xs)"
        using run_ok by simp
      then show ?thesis by (simp only: split_filter)
    qed
    with a b show ?thesis
      unfolding ls by simp
  qed
qed

lemma sorted_reverse_spec:
  assumes nn: "\<forall>x \<in> set xs. key x \<noteq> NaN"
  shows "sorted_wrt (\<lambda>a b. \<not> flt (key a) (key b)) (sorted_reverse key xs) \<and>
         (\<forall>c. filter (\<lambda>x. key x = c) (sorted_reverse key xs) = filter (\<lambda>x. key x = c) xs)"
proof -
  let ?f = "\<lambda>x. num (key x)"
  let ?out = "sorted_reverse key xs"
  from nn have nnr: "\<forall>x \<in> set (rev xs). key x \<noteq> NaN" by simp
  from list_sort_spec [OF nnr] have
    a: "sorted (map ?f (list_sort key (rev xs)))"
    and b: "\<forall>c. filter (\<lambda>x. ?f x = c) (list_sort key (rev xs)) = filter (\<lambda>x. ?f x = c) (rev xs)"
    by blast+
  have nno: "\<forall>x \<in> set ?out. key x \<noteq> NaN"
    using nn by (simp add: set_sorted_reverse)
  from a have "sorted_wrt (\<lambda>a b. ?f b \<le> ?f a) ?out"
    by (simp add: sorted_reverse_def sorted_wrt_map sorted_wrt_rev)
  then have s: "sorted_wrt (\<lambda>a b. \<not> flt (key a) (key b)) ?out"
  proof (rule sorted_wrt_mono_rel [rotated])
    fix a b assume "a \<in> set ?out" "b \<in> set ?out" "?f b \<le> ?f a"
    with nno show "\<not> flt (key a) (key b)"
      by (simp add: flt_num)
  qed
  have fnum: "filter (\<lambda>x. ?f x = v) ?out = filter (\<lambda>x. ?f x = v) xs" for v
  proof -
    have "filter (\<lambda>x. ?f x = v) ?out = rev (filter (\<lambda>x. ?f x = v) (list_sort key (rev xs)))"
      by (simp add: sorted_reverse_def rev_filter)
    also have "\<dots> = rev (filter (\<lambda>x. ?f x = v) (rev xs))"
      using b by simp
    also have "\<dots> = filter (\<lambda>x. ?f x = v) xs"
      by (simp add: rev_filter)
    finally show ?thesis .
  qed
  have st: "filter (\<lambda>x. key x = c) ?out = filter (\<lambda>x. key x = c) xs" for c
  proof (cases c)
    case NaN
    with nn nno show ?thesis
      by (simp add: filter_empty_conv)
  next
    case (Num v)
    have "filter (\<lambda>x. key x = c) ?out = filter (\<lambda>x. ?f x = v) ?out"
      using nno Num by (intro filter_cong refl) (auto simp: num_def split: pyfloat.splits)
    moreover have "filter (\<lambda>x. key x = c) xs = filter (\<lambda>x. ?f x = v) xs"
      using nn Num by (intro filter_cong refl) (auto simp: num_def split: pyfloat.splits)
    ultimately show ?thesis by (simp only: fnum)
  qed
  from s st show ?thesis by blast
qed

text \<open>
  The sort on percentages without NaN. When no surviving country has a NaN percentage,
  the sorted list is a rearrangement of the surviving entries in which no entry has a
  smaller percentage than a later one, so an entry with a strictly greater percentage
  stands at an earlier position, and the entries of any one percentage keep the order
  they had in the selection.
\<close>

theorem sorted_latest_descending_stable:
  assumes "\<forall>e \<in> set latest_data. Percentage e \<noteq> NaN"
  shows "mset (sorted_latest latest_data) = mset latest_data \<and>
     sorted_wrt (\<lambda>a b. \<not> flt (Percentage a) (Percentage b)) (sorted_latest latest_data) \<and>
     (\<forall>i j. i < length (sorted_latest latest_data) \<and> j < length (sorted_latest latest_data) \<and>
        flt (Percentage (sorted_latest latest_data ! j)) (Percentage (sorted_latest latest_data ! i))
        \<longrightarrow> i < j) \<and>
     (\<forall>c. filter (\<lambda>e. Percentage e = c) (sorted_latest latest_data)
            = filter (\<lambda>e. Percentage e = c) latest_data)"
proof -
  let ?out = "sorted_latest latest_data"
  have p: "mset ?out = mset latest_data"
    by (simp add: sorted_latest_def mset_sorted_reverse)
  from sorted_reverse_spec [OF assms] have
    s: "sorted_wrt (\<lambda>a b. \<not> flt (Percentage a) (Percentage b)) ?out"
    and st: "\<forall>c. filter (\<lambda>e. Percentage e = c) ?out = filter (\<lambda>e. Percentage e = c) latest_data"
    unfolding sorted_latest_def by blast+
  have ix: "\<forall>i j. i < length ?out \<and> j < length ?out \<and>
        flt (Percentage (?out ! j)) (Percentage (?out ! i)) \<longrightarrow> i < j"
  proof (intro allI impI)
    fix i j
    assume a: "i < length ?out \<and> j < length ?out \<and>
        flt (Percentage (?out ! j)) (Percentage (?out ! i))"
    show "i < j"
    proof (rule ccontr)
      assume "\<not> i < j"
      then consider "j < i" | "j = i" by linarith
      then show False
      proof cases
        case 1
        from s have "\<forall>a b. a < b \<longrightarrow> b < length ?out \<longrightarrow>
            \<not> flt (Percentage (?out ! a)) (Percentage (?out ! b))"
          by (simp add: sorted_wrt_iff_nth_less)
        with 1 a show False by blast
      next
        case 2
        with a have "flt (Percentage (?out ! i)) (Percentage (?out ! i))" by simp
        then show False by (cases "Percentage (?out ! i)") simp_all
      qed
    qed
  qed
  from p s ix st show ?thesis by blast
qed

theorem sorted_latest_descending_stable_witness:
  "list_all (\<lambda>e. Percentage e \<noteq> NaN) four_entries \<and>
   sorted_wrt (\<lambda>a b. \<not> flt (Percentage a) (Percentage b)) (sorted_latest four_entries) \<and>
   map Country (filter (\<lambda>e. Percentage e = Num 12) (sorted_latest four_entries))
     = [''Denmark'', ''Ireland'']"
proof -
  have h: "\<forall>e \<in> set four_entries. Percentage e \<noteq> NaN"
    by (simp add: four_entries_def)
  from sorted_latest_descending_stable [OF h] have
    s: "sorted_wrt (\<lambda>a b. \<not> flt (Percentage a) (Percentage b)) (sorted_latest four_entries)"
    and st: "filter (\<lambda>e. Percentage e = Num 12) (sorted_latest four_entries)
               = filter (\<lambda>e. Percentage e = Num 12) four_entries"
    by blast+
  have "map Country (filter (\<lambda>e. Percentage e = Num 12) four_entries) = [''Denmark'', ''Ireland'']"
    by (simp add: four_entries_def)
  with st have m: "map Country (filter (\<lambda>e. Percentage e = Num 12) (sorted_latest four_entries))
     = [''Denmark'', ''Ireland'']"
    by simp
  have l: "list_all (\<lambda>e. Percentage e \<noteq> NaN) four_entries"
    by (simp add: four_entries_def)
  from l s m show ?thesis by (intro conjI)
qed

lemma austria_belgium_croatia_entries:
  "survivors (isin_filter europe_df [''Austria'', ''Belgium'', ''Croatia'']) ''Scaler''
     [''Austria'', ''Belgium'', ''Croatia'']
     = [\<lparr>Country = ''Austria'', Percentage = Num 1, Number = Num 1, Total = Num 100\<rparr>,
        \<lparr>Country = ''Belgium'', Percentage = NaN, Number = Num 3, Total = Num 100\<rparr>,
        \<lparr>Country = ''Croatia'', Percentage = Num 2, Number = Num 2, Total = Num 100\<rparr>]"
proof -
  let ?fd = "isin_filter europe_df [''Austria'', ''Belgium'', ''Croatia'']"
  have "filter (lookups_succeed ?fd ''Scaler'') [''Austria'', ''Belgium'', ''Croatia'']
          = [''Austria'', ''Belgium'', ''Croatia'']"
    by (simp add: europe_lookups eleven_countries_def)
  moreover have "entry_of ?fd ''Scaler'' ''Austria''
      = \<lparr>Country = ''Austria'', Percentage = Num 1, Number = Num 1, Total = Num 100\<rparr>"
    by (simp add: entry_of_def comparison_entry_def cell0_eq latest_year_def col_name_scaler
        europe_df_def scaler_columns_def scaler_row_def cells_of_def)
  moreover have "entry_of ?fd ''Scaler'' ''Belgium''
      = \<lparr>Country = ''Belgium'', Percentage = NaN, Number = Num 3, Total = Num 100\<rparr>"
    by (simp add: entry_of_def comparison_entry_def cell0_eq latest_year_def col_name_scaler
        europe_df_def scaler_columns_def scaler_row_def cells_of_def)
  moreover have "entry_of ?fd ''Scaler'' ''Croatia''
      = \<lparr>Country = ''Croatia'', Percentage = Num 2, Number = Num 2, Total = Num 100\<rparr>"
    by (simp add: entry_of_def comparison_entry_def cell0_eq latest_year_def col_name_scaler
        europe_df_def scaler_columns_def scaler_row_def cells_of_def)
  ultimately show ?thesis
    by (simp add: survivors_def)
qed

lemma austria_belgium_croatia_sorted:
  "sorted_latest
     [\<lparr>Country = ''Austria'', Percentage = Num 1, Number = Num 1, Total = Num 100\<rparr>,
      \<lparr>Country = ''Belgium'', Percentage = NaN, Number = Num 3, Total = Num 100\<rparr>,
      \<lparr>Country = ''Croatia'', Percentage = Num 2, Number = Num 2, Total = Num 100\<rparr>]
     = [\<lparr>Country = ''Austria'', Percentage = Num 1, Number = Num 1, Total = Num 100\<rparr>,
        \<lparr>Country = ''Belgium'', Percentage = NaN, Number = Num 3, Total = Num 100\<rparr>,
        \<lparr>Country = ''Croatia'', Percentage = Num 2, Number = Num 2, Total = Num 100\<rparr>]"
  by (simp add: sorted_latest_def sorted_reverse_def list_sort_def count_run_def)

text \<open>
  Claim C3 at a failing input. Austria (1 percent), Belgium (empty cell) and Croatia
  (2 percent) are selected in this order. All three survive, the sort leaves them in
  this order, and Croatia, whose percentage is strictly greater than Austria's, stands
  after Austria: the comparison chart is not in descending order.
\<close>

theorem sorted_latest_nan_misorders:
  "map Country (sorted_latest (survivors (isin_filter europe_df [''Austria'', ''Belgium'', ''Croatia''])
       ''Scaler'' [''Austria'', ''Belgium'', ''Croatia'']))
     = [''Austria'', ''Belgium'', ''Croatia''] \<and>
   map Percentage (sorted_latest (survivors (isin_filter europe_df [''Austria'', ''Belgium'', ''Croatia''])
       ''Scaler'' [''Austria'', ''Belgium'', ''Croatia'']))
     = [Num 1, NaN, Num 2] \<and>
   flt (Percentage (sorted_latest (survivors (isin_filter europe_df [''Austria'', ''Belgium'', ''Croatia''])
       ''Scaler'' [''Austria'', ''Belgium'', ''Croatia'']) ! 0))
       (Percentage (sorted_latest (survivors (isin_filter europe_df [''Austria'', ''Belgium'', ''Croatia''])
       ''Scaler'' [''Austria'', ''Belgium'', ''Croatia'']) ! 2))"
  unfolding austria_belgium_croatia_entries austria_belgium_croatia_sorted by simp

text \<open>
  At this input the pass ends without an error and writes the chart, with the bars in
  the order above.
\<close>

lemma austria_belgium_croatia_chart:
  "comparison_view (isin_filter europe_df [''Austria'', ''Belgium'', ''Croatia'']) ''Scaler''
      [''Austria'', ''Belgium'', ''Croatia''] \<lparr>dataset = europe_df, ui = []\<rparr>
     = (None, \<lparr>dataset = europe_df,
               ui = [PyplotComparison
                      \<lparr>cc_countries = [''Austria'', ''Belgium'', ''Croatia''],
                       cc_percentages = [Num 1, NaN, Num 2],
                       cc_colors = [Blue, Orange, Green],
                       cc_xlim = (0, 2.4)\<rparr>]\<rparr>)"
proof -
  let ?fd = "isin_filter europe_df [''Austria'', ''Belgium'', ''Croatia'']"
  let ?sel = "[''Austria'', ''Belgium'', ''Croatia'']"
  have l: "1 < length ?sel" by simp
  have ne: "survivors ?fd ''Scaler'' ?sel \<noteq> []"
    by (simp only: austria_belgium_croatia_entries) simp
  have w: "with_warnings ?fd ''Scaler'' ?sel \<lparr>dataset = europe_df, ui = []\<rparr>
             = \<lparr>dataset = europe_df, ui = []\<rparr>"
    by (simp add: with_warnings_def europe_lookups eleven_countries_def)
  have bars: "comparison_bars (survivors ?fd ''Scaler'' ?sel)
      = ([''Austria'', ''Belgium'', ''Croatia''], [Num 1, NaN, Num 2])"
    by (simp only: austria_belgium_croatia_entries comparison_bars_def
        austria_belgium_croatia_sorted) simp
  have pal: "color_palette (length [''Austria'', ''Belgium'', ''Croatia'']) = [Blue, Orange, Green]"
    by (simp add: color_palette_take tab10_def)
  show ?thesis
    by (simp only: comparison_view_some [OF l ne] bars w fst_conv snd_conv pal)
      (simp add: fgt_def st_write_def)
qed

end
